theory Spec2Isabelle
  imports Main
begin

section \<open>The host's expression trees\<close>

text \<open>
  The plug-ins of \<^verbatim>\<open>snippets/gcc-assert-introspect-2\<close> work on GCC's GENERIC trees.
  A tree node is a tagged union: its code (\<^verbatim>\<open>TREE_CODE\<close>) fixes how many operands
  it has. The model keeps one constructor per node layout and an enumeration of the codes
  that share a layout, so a test \<^verbatim>\<open>TREE_CODE(e) == X\<close> of the source is the test
  that \<open>e\<close> is built with the constructor (and code) \<open>X\<close>, and the operands of a
  node are the arguments of its constructor. Only the codes the plug-ins test, plus a few
  that stay opaque to them, are listed.
\<close>

datatype decl_code = VAR_DECL | PARM_DECL | FUNCTION_DECL

datatype unary_code = NOP_EXPR | ADDR_EXPR | NEGATE_EXPR | TRUTH_NOT_EXPR

datatype binary_code =
    EQ_EXPR | NE_EXPR | LT_EXPR
  | TRUTH_AND_EXPR | TRUTH_ANDIF_EXPR | TRUTH_OR_EXPR | TRUTH_ORIF_EXPR
  | PLUS_EXPR | MINUS_EXPR | MULT_EXPR | TRUNC_DIV_EXPR | TRUNC_MOD_EXPR

datatype tree =
    INTEGER_CST int
  | STRING_CST string
  | DECL decl_code string
  | UNARY unary_code tree
  | BINARY binary_code tree tree
  | CALL_EXPR tree "tree list"
  | COND_EXPR tree tree tree
  | BIND_EXPR tree
  | STATEMENT_LIST "tree list"

text \<open>
  \<open>DECL d name\<close> is a declaration with its \<^verbatim>\<open>DECL_NAME\<close>;
  \<open>CALL_EXPR fn args\<close> holds \<^verbatim>\<open>CALL_EXPR_FN\<close> and the arguments;
  \<open>COND_EXPR c t e\<close> holds \<^verbatim>\<open>COND_EXPR_COND\<close>, \<^verbatim>\<open>COND_EXPR_THEN\<close>
  and \<^verbatim>\<open>COND_EXPR_ELSE\<close>; \<open>BIND_EXPR body\<close> holds \<^verbatim>\<open>BIND_EXPR_BODY\<close>.
\<close>

datatype error =
    ICE \<comment> \<open>a failed \<^verbatim>\<open>gcc_assert\<close>: internal compiler error\<close>
  | TREE_CHECK \<comment> \<open>an operand accessor applied to a node without that operand\<close>

section \<open>Tree constructors of the host\<close>

text \<open>
  Modelled from the spec: the host's node constructors (\<^verbatim>\<open>build_string_literal\<close>,
  \<^verbatim>\<open>build_call_expr\<close>, \<^verbatim>\<open>build_call_expr_loc\<close>,
  \<^verbatim>\<open>build_call_expr_loc_vec\<close>, \<^verbatim>\<open>build_conditional_expr\<close>,
  \<^verbatim>\<open>build_empty_stmt\<close>, \<^verbatim>\<open>alloc_stmt_list\<close>,
  \<^verbatim>\<open>append_to_statement_list\<close>) and the scope lookup
  \<^verbatim>\<open>lookup_name(get_identifier(..))\<close> belong to GCC, not to the repository. The spec
  asks of the host to "construct a call to an externally resolved diagnostic-printing
  routine given a format string and ordered argument list" and to "construct conditional
  and sequential-statement nodes". Source locations and types of nodes are left out.
  The lookup finds the declaration of a function of that name, which the program is taken
  to have in scope (it includes \<^verbatim>\<open>stdio.h\<close>).
  A string literal of \<open>len\<close> bytes holds \<open>len - 1\<close> characters and the terminating NUL.
  A call node calls through the address of the declaration. The empty statement is
  \<^verbatim>\<open>(void)0\<close>. Appending a statement list to a statement list splices its
  statements in.
\<close>

definition build_string_literal :: "nat \<Rightarrow> string \<Rightarrow> tree" where
  "build_string_literal len str = UNARY ADDR_EXPR (STRING_CST (take (len - 1) str))"

definition lookup_name :: "string \<Rightarrow> tree" where
  "lookup_name ident = DECL FUNCTION_DECL ident"

definition build_call_expr_loc_vec :: "tree \<Rightarrow> tree list \<Rightarrow> tree" where
  "build_call_expr_loc_vec fndecl vec = CALL_EXPR (UNARY ADDR_EXPR fndecl) vec"

definition build_call_expr_loc :: "tree \<Rightarrow> tree list \<Rightarrow> tree" where
  "build_call_expr_loc fndecl args = CALL_EXPR (UNARY ADDR_EXPR fndecl) args"

definition build_call_expr :: "tree \<Rightarrow> tree list \<Rightarrow> tree" where
  "build_call_expr fndecl args = CALL_EXPR (UNARY ADDR_EXPR fndecl) args"

definition build_conditional_expr :: "tree \<Rightarrow> tree \<Rightarrow> tree \<Rightarrow> tree" where
  "build_conditional_expr ifexp op1 op2 = COND_EXPR ifexp op1 op2"

definition build_empty_stmt :: tree where
  "build_empty_stmt = UNARY NOP_EXPR (INTEGER_CST 0)"

definition alloc_stmt_list :: tree where
  "alloc_stmt_list = STATEMENT_LIST []"

fun append_to_statement_list :: "tree \<Rightarrow> tree \<Rightarrow> tree" where
  "append_to_statement_list (STATEMENT_LIST ys) (STATEMENT_LIST xs) = STATEMENT_LIST (xs @ ys)"
| "append_to_statement_list t (STATEMENT_LIST xs) = STATEMENT_LIST (xs @ [t])"
| "append_to_statement_list t l = l"

text \<open>
  Modelled from the spec: \<^verbatim>\<open>snprintf\<close> of the C library, which keeps at most
  \<open>size - 1\<close> characters of the text it is asked to write ("Truncate the message
  deterministically; never overrun allocated storage").
\<close>

definition snprintf :: "nat \<Rightarrow> string \<Rightarrow> string" where
  "snprintf size_of_buf text = take (size_of_buf - 1) text"

section \<open>The operator table\<close>

text \<open>\<^verbatim>\<open>get_expr_op_repr\<close>: the switch over the node's code; \<open>None\<close> is \<^verbatim>\<open>NULL\<close>.\<close>

fun get_expr_op_repr :: "tree \<Rightarrow> string option" where
  "get_expr_op_repr (BINARY code l r) =
     (case code of
        EQ_EXPR \<Rightarrow> Some ''==''
      | NE_EXPR \<Rightarrow> Some ''!=''
      | TRUTH_AND_EXPR \<Rightarrow> Some ''&&''
      | TRUTH_ANDIF_EXPR \<Rightarrow> Some ''&&''
      | TRUTH_OR_EXPR \<Rightarrow> Some ''||''
      | TRUTH_ORIF_EXPR \<Rightarrow> Some ''||''
      | PLUS_EXPR \<Rightarrow> Some ''+''
      | MINUS_EXPR \<Rightarrow> Some ''-''
      | MULT_EXPR \<Rightarrow> Some ''*''
      | TRUNC_DIV_EXPR \<Rightarrow> Some ''/''
      | _ \<Rightarrow> None)"
| "get_expr_op_repr expr = None"

section \<open>The first rewrite: one format, one call (basic\_rewrite.c)\<close>

text \<open>
  \<^verbatim>\<open>patch_assert\<close> of \<^verbatim>\<open>basic_rewrite.c\<close> takes operands 0 and 1 of the condition
  and replaces the failure branch by \<^verbatim>\<open>printf("%d == %d\n", left, right)\<close>.
  \<^verbatim>\<open>sizeof("%d == %d\n")\<close> is the length of the text plus one.
  \<open>TREE_OPERAND\<close> gives the operands of the expression nodes of the model; asked for
  an operand the node does not have, GCC's tree checking stops the compiler. The body of a
  \<^verbatim>\<open>BIND_EXPR\<close> is its operand 1 (its variables and block are not modelled). The
  operands of declarations, constants, calls and statement lists are not given.
\<close>

fun TREE_OPERAND :: "tree \<Rightarrow> nat \<Rightarrow> error + tree" where
  "TREE_OPERAND (UNARY code e) i = (if i = 0 then Inr e else Inl TREE_CHECK)"
| "TREE_OPERAND (BINARY code l r) i =
     (if i = 0 then Inr l else if i = 1 then Inr r else Inl TREE_CHECK)"
| "TREE_OPERAND (COND_EXPR c t e) i =
     (if i = 0 then Inr c else if i = 1 then Inr t else if i = 2 then Inr e else Inl TREE_CHECK)"
| "TREE_OPERAND (BIND_EXPR body) i = (if i = 1 then Inr body else Inl TREE_CHECK)"
| "TREE_OPERAND expr i = Inl TREE_CHECK"

fun patch_assert_basic :: "tree \<Rightarrow> error + tree" where
  "patch_assert_basic (COND_EXPR c t e) =
     (case TREE_OPERAND c 0 of
        Inl err \<Rightarrow> Inl err
      | Inr left \<Rightarrow>
          (case TREE_OPERAND c 1 of
             Inl err \<Rightarrow> Inl err
           | Inr right \<Rightarrow>
               let fmt = build_string_literal (length (''%d == %d'' @ [CHR 0x0A]) + 1)
                           (''%d == %d'' @ [CHR 0x0A]);
                   call = build_call_expr (lookup_name ''printf'') [fmt, left, right]
               in Inr (COND_EXPR c t call)))"
| "patch_assert_basic cond_expr = Inl TREE_CHECK"

section \<open>The static rewrite (complex\_rewrite.c, first plug-in)\<close>

text \<open>
  \<^verbatim>\<open>create_expression_repr\<close> returns the format text and pushes the leaves on
  \<open>args\<close>, which the source passes by reference: the model returns the new vector.
  \<^verbatim>\<open>buf\<close> has 1024 bytes.
\<close>

fun create_expression_repr :: "tree \<Rightarrow> tree list \<Rightarrow> string \<times> tree list" where
  "create_expression_repr (BINARY code l r) args =
     (case get_expr_op_repr (BINARY code l r) of
        Some op \<Rightarrow>
          (case create_expression_repr l args of (left, args1) \<Rightarrow>
           case create_expression_repr r args1 of (right, args2) \<Rightarrow>
             (snprintf 1024 (''('' @ left @ '') '' @ op @ '' ('' @ right @ '')''), args2))
      | None \<Rightarrow> (''%d'', args @ [BINARY code l r]))"
| "create_expression_repr expr args = (''%d'', args @ [expr])"

fun patch_assert_static :: "tree \<Rightarrow> error + tree" where
  "patch_assert_static (COND_EXPR c t e) =
     (case create_expression_repr c [] of (fmt, v) \<Rightarrow>
        let v = build_string_literal (length fmt + 1) fmt # v;
            call = build_call_expr_loc_vec (lookup_name ''printf'') v
        in Inr (COND_EXPR c t call))"
| "patch_assert_static cond_expr = Inl TREE_CHECK"

section \<open>The run-time rewrite (complex\_rewrite.c, second plug-in)\<close>

text \<open>
  \<^verbatim>\<open>printf_decl\<close> is a static variable that \<^verbatim>\<open>patch_assert\<close> sets before the
  walk; the model passes it along.
\<close>

definition make_printf :: "tree \<Rightarrow> string \<Rightarrow> tree list option \<Rightarrow> tree" where
  "make_printf printf_decl format args =
     (let fmt = build_string_literal (length format + 1) format
      in case args of
           Some a \<Rightarrow> build_call_expr_loc_vec printf_decl (fmt # a)
         | None \<Rightarrow> build_call_expr_loc printf_decl [fmt])"

fun make_conditional_expr_repr :: "tree \<Rightarrow> tree \<Rightarrow> tree" where
  "make_conditional_expr_repr printf_decl (BINARY code l r) =
     (if code = TRUTH_ANDIF_EXPR \<or> code = TRUTH_AND_EXPR then
        let stmts = alloc_stmt_list;
            stmts = append_to_statement_list (make_conditional_expr_repr printf_decl l) stmts;
            left_stmts = stmts;
            stmts = alloc_stmt_list;
            stmts = append_to_statement_list (make_printf printf_decl ''(...) && ('' None) stmts;
            stmts = append_to_statement_list (make_conditional_expr_repr printf_decl r) stmts;
            stmts = append_to_statement_list (make_printf printf_decl '')'' None) stmts;
            right_stmts = stmts
        in build_conditional_expr l right_stmts left_stmts
      else if code = TRUTH_ORIF_EXPR \<or> code = TRUTH_OR_EXPR then
        let stmts = alloc_stmt_list;
            stmts = append_to_statement_list (make_printf printf_decl ''('' None) stmts;
            stmts = append_to_statement_list (make_conditional_expr_repr printf_decl l) stmts;
            stmts = append_to_statement_list (make_printf printf_decl '') || ('' None) stmts;
            stmts = append_to_statement_list (make_conditional_expr_repr printf_decl r) stmts;
            stmts = append_to_statement_list (make_printf printf_decl '')'' None) stmts
        in build_conditional_expr (BINARY code l r) build_empty_stmt stmts
      else
        let stmts = alloc_stmt_list
        in case get_expr_op_repr (BINARY code l r) of
             Some op \<Rightarrow>
               let format = snprintf 64 ('' '' @ op @ '' '');
                   stmts = append_to_statement_list (make_conditional_expr_repr printf_decl l) stmts;
                   stmts = append_to_statement_list (make_printf printf_decl format None) stmts;
                   stmts = append_to_statement_list (make_conditional_expr_repr printf_decl r) stmts
               in stmts
           | None \<Rightarrow>
               append_to_statement_list
                 (make_printf printf_decl ''%d'' (Some [BINARY code l r])) stmts)"
| "make_conditional_expr_repr printf_decl expr =
     append_to_statement_list (make_printf printf_decl ''%d'' (Some [expr])) alloc_stmt_list"

fun patch_assert :: "tree \<Rightarrow> error + tree" where
  "patch_assert (COND_EXPR c t e) =
     (let printf_decl = lookup_name ''printf''
      in Inr (COND_EXPR c t (make_conditional_expr_repr printf_decl c)))"
| "patch_assert cond_expr = Inl TREE_CHECK"

section \<open>Finding the assertions\<close>

text \<open>
  \<^verbatim>\<open>is_assert_fail_cond_expr\<close>, the same in the three plug-ins. \<^verbatim>\<open>strcmp\<close>
  returns 0 on equal strings.
\<close>

definition is_assert_fail_cond_expr :: "tree \<Rightarrow> bool" where
  "is_assert_fail_cond_expr expr =
     (case expr of
        COND_EXPR c expr_then expr_else \<Rightarrow>
          (case expr_then of UNARY NOP_EXPR x \<Rightarrow> True | _ \<Rightarrow> False) \<and>
          (case expr_else of
             CALL_EXPR fn args \<Rightarrow>
               (case fn of
                  UNARY ADDR_EXPR d \<Rightarrow>
                    (case d of
                       DECL FUNCTION_DECL name \<Rightarrow> name = ''__assert_fail''
                     | _ \<Rightarrow> False)
                | _ \<Rightarrow> False)
           | _ \<Rightarrow> False)
      | _ \<Rightarrow> False)"

text \<open>
  \<^verbatim>\<open>iterate_function_body\<close>, the same in the three plug-ins but for the
  \<^verbatim>\<open>patch_assert\<close> it calls, which is the parameter \<open>patch\<close>. The source updates the
  tree in place; the model returns the updated tree. A failing \<^verbatim>\<open>gcc_assert\<close> stops
  the compiler and is the result \<open>Inl ICE\<close>. \<open>iterate_stmts\<close> is the loop over the
  statements of a list. The first equation is the run for a \<^verbatim>\<open>BIND_EXPR\<close>, where
  \<^verbatim>\<open>gcc_assert(TREE_CODE(expr) == BIND_EXPR)\<close> holds; the second is the run for a
  \<^verbatim>\<open>STATEMENT_LIST\<close>, whose body is the list itself; the third is the failing
  \<^verbatim>\<open>gcc_assert(TREE_CODE(expr) == STATEMENT_LIST)\<close>.
\<close>

fun iterate_function_body :: "(tree \<Rightarrow> error + tree) \<Rightarrow> tree \<Rightarrow> error + tree"
  and iterate_stmts :: "(tree \<Rightarrow> error + tree) \<Rightarrow> tree list \<Rightarrow> error + tree list" where
  "iterate_function_body patch (BIND_EXPR body) =
     (case body of
        STATEMENT_LIST ss \<Rightarrow>
          (case iterate_stmts patch ss of
             Inl err \<Rightarrow> Inl err
           | Inr ss' \<Rightarrow> Inr (BIND_EXPR (STATEMENT_LIST ss')))
      | _ \<Rightarrow>
          if is_assert_fail_cond_expr body then
            (case body of
               COND_EXPR c t e \<Rightarrow>
                 (case patch body of
                    Inl err \<Rightarrow> Inl err
                  | Inr body' \<Rightarrow> Inr (BIND_EXPR body'))
             | _ \<Rightarrow> Inl ICE)
          else Inr (BIND_EXPR body))"
| "iterate_function_body patch (STATEMENT_LIST ss) =
     (case iterate_stmts patch ss of
        Inl err \<Rightarrow> Inl err
      | Inr ss' \<Rightarrow> Inr (STATEMENT_LIST ss'))"
| "iterate_function_body patch expr = Inl ICE"
| "iterate_stmts patch [] = Inr []"
| "iterate_stmts patch (stmt # rest) =
     (case (case stmt of
              BIND_EXPR b \<Rightarrow> iterate_function_body patch stmt
            | _ \<Rightarrow> Inr stmt) of
        Inl err \<Rightarrow> Inl err
      | Inr stmt' \<Rightarrow>
          (case iterate_stmts patch rest of
             Inl err \<Rightarrow> Inl err
           | Inr rest' \<Rightarrow> Inr (stmt' # rest')))"

section \<open>What the trees do when the program runs\<close>

text \<open>
  Modelled from the spec: the evaluation of the trees by the compiled program is C's,
  not the repository's. The spec fixes what matters here: "Short-circuit evaluation:
  evaluation rule for logical AND/OR where the right operand is evaluated only if needed
  to determine the result", leaves that are "value-producing units", and a
  diagnostic-printing routine that takes "a format string and ordered argument list".

  Values are C \<^verbatim>\<open>int\<close>s. A state holds the variables, the names of the functions
  called so far (in order) and the text printed so far. A called function sees its
  arguments and the variables, and may change the variables. Undefined behaviour (division
  by zero, signed overflow, a missing \<^verbatim>\<open>printf\<close> argument) and nodes that have no
  integer value give \<open>None\<close>. Arguments are evaluated from left to right.
  \<^verbatim>\<open>TRUTH_ANDIF_EXPR\<close> and \<^verbatim>\<open>TRUTH_ORIF_EXPR\<close> are the short-circuit operators;
  \<^verbatim>\<open>TRUTH_AND_EXPR\<close> and \<^verbatim>\<open>TRUTH_OR_EXPR\<close> evaluate both operands.
\<close>

type_synonym store = "string \<Rightarrow> int"

type_synonym fenv = "string \<Rightarrow> int list \<Rightarrow> store \<Rightarrow> int \<times> store"

record state =
  vars :: store
  calls :: "string list"
  out :: string

definition int_result :: "int \<Rightarrow> int option" where
  "int_result v = (if - 2147483648 \<le> v \<and> v \<le> 2147483647 then Some v else None)"

definition trunc_div :: "int \<Rightarrow> int \<Rightarrow> int" where
  "trunc_div a b = sgn a * sgn b * (\<bar>a\<bar> div \<bar>b\<bar>)"

definition truth :: "bool \<Rightarrow> int" where
  "truth b = (if b then 1 else 0)"

fun binop :: "binary_code \<Rightarrow> int \<Rightarrow> int \<Rightarrow> int option" where
  "binop EQ_EXPR a b = Some (truth (a = b))"
| "binop NE_EXPR a b = Some (truth (a \<noteq> b))"
| "binop LT_EXPR a b = Some (truth (a < b))"
| "binop TRUTH_AND_EXPR a b = Some (truth (a \<noteq> 0 \<and> b \<noteq> 0))"
| "binop TRUTH_ANDIF_EXPR a b = Some (truth (a \<noteq> 0 \<and> b \<noteq> 0))"
| "binop TRUTH_OR_EXPR a b = Some (truth (a \<noteq> 0 \<or> b \<noteq> 0))"
| "binop TRUTH_ORIF_EXPR a b = Some (truth (a \<noteq> 0 \<or> b \<noteq> 0))"
| "binop PLUS_EXPR a b = int_result (a + b)"
| "binop MINUS_EXPR a b = int_result (a - b)"
| "binop MULT_EXPR a b = int_result (a * b)"
| "binop TRUNC_DIV_EXPR a b = (if b = 0 then None else int_result (trunc_div a b))"
| "binop TRUNC_MOD_EXPR a b =
     (if b = 0 then None else int_result (a - b * trunc_div a b))"

text \<open>The decimal text of \<^verbatim>\<open>%d\<close>.\<close>

fun digits :: "nat \<Rightarrow> string" where
  "digits n =
     (if n < 10 then [''0123456789'' ! n]
      else digits (n div 10) @ [''0123456789'' ! (n mod 10)])"

declare digits.simps [simp del]

definition show_int :: "int \<Rightarrow> string" where
  "show_int v = (if v < 0 then ''-'' @ digits (nat (- v)) else digits (nat v))"

text \<open>
  \<open>printf_format fmt vs\<close> is the text printed and the arguments left over; the only
  conversion of the plug-ins is \<^verbatim>\<open>%d\<close>.
\<close>

fun printf_format :: "string \<Rightarrow> int list \<Rightarrow> (string \<times> int list) option" where
  "printf_format [] vs = Some ([], vs)"
| "printf_format (c # cs) vs =
     (if c = CHR ''%'' then
        (case cs of
           [] \<Rightarrow> None
         | d # rest \<Rightarrow>
             if d = CHR ''d'' then
               (case vs of
                  [] \<Rightarrow> None
                | v # vs' \<Rightarrow>
                    (case printf_format rest vs' of
                       None \<Rightarrow> None
                     | Some (text, left_over) \<Rightarrow> Some (show_int v @ text, left_over)))
             else None)
      else
        (case printf_format cs vs of
           None \<Rightarrow> None
         | Some (text, left_over) \<Rightarrow> Some (c # text, left_over)))"

definition emit :: "string \<Rightarrow> state \<Rightarrow> state" where
  "emit text s = s\<lparr>out := out s @ text\<rparr>"

definition called :: "string \<Rightarrow> state \<Rightarrow> state" where
  "called name s = s\<lparr>calls := calls s @ [name]\<rparr>"

fun eval :: "fenv \<Rightarrow> tree \<Rightarrow> state \<Rightarrow> (int \<times> state) option"
  and eval_args :: "fenv \<Rightarrow> tree list \<Rightarrow> state \<Rightarrow> (int list \<times> state) option"
  and eval_stmts :: "fenv \<Rightarrow> tree list \<Rightarrow> state \<Rightarrow> state option" where
  "eval F (INTEGER_CST n) s = Some (n, s)"
| "eval F (STRING_CST str) s = None"
| "eval F (DECL d name) s = (if d = FUNCTION_DECL then None else Some (vars s name, s))"
| "eval F (UNARY code e) s =
     (if code = ADDR_EXPR then None
      else case eval F e s of
             None \<Rightarrow> None
           | Some (v, s1) \<Rightarrow>
               if code = NEGATE_EXPR then
                 (case int_result (- v) of None \<Rightarrow> None | Some w \<Rightarrow> Some (w, s1))
               else if code = TRUTH_NOT_EXPR then Some (truth (v = 0), s1)
               else Some (v, s1))"
| "eval F (BINARY code l r) s =
     (case eval F l s of
        None \<Rightarrow> None
      | Some (a, s1) \<Rightarrow>
          if code = TRUTH_ANDIF_EXPR \<and> a = 0 then Some (0, s1)
          else if code = TRUTH_ORIF_EXPR \<and> a \<noteq> 0 then Some (1, s1)
          else
            (case eval F r s1 of
               None \<Rightarrow> None
             | Some (b, s2) \<Rightarrow>
                 (case binop code a b of None \<Rightarrow> None | Some v \<Rightarrow> Some (v, s2))))"
| "eval F (CALL_EXPR fn args) s =
     (case fn of
        UNARY ADDR_EXPR (DECL FUNCTION_DECL name) \<Rightarrow>
          if name = ''printf'' then
            (case args of
               UNARY ADDR_EXPR (STRING_CST fmt) # rest \<Rightarrow>
                 (case eval_args F rest s of
                    None \<Rightarrow> None
                  | Some (vs, s1) \<Rightarrow>
                      (case printf_format fmt vs of
                         None \<Rightarrow> None
                       | Some (text, left_over) \<Rightarrow>
                           Some (int (length text), emit text (called name s1))))
             | _ \<Rightarrow> None)
          else
            (case eval_args F args s of
               None \<Rightarrow> None
             | Some (vs, s1) \<Rightarrow>
                 (case F name vs (vars s1) of
                    (ret, st) \<Rightarrow> Some (ret, called name (s1\<lparr>vars := st\<rparr>))))
      | _ \<Rightarrow> None)"
| "eval F (COND_EXPR c t e) s =
     (case eval F c s of
        None \<Rightarrow> None
      | Some (v, s1) \<Rightarrow> if v \<noteq> 0 then eval F t s1 else eval F e s1)"
| "eval F (BIND_EXPR body) s = eval F body s"
| "eval F (STATEMENT_LIST ss) s =
     (case eval_stmts F ss s of None \<Rightarrow> None | Some s1 \<Rightarrow> Some (0, s1))"
| "eval_args F [] s = Some ([], s)"
| "eval_args F (a # as) s =
     (case eval F a s of
        None \<Rightarrow> None
      | Some (v, s1) \<Rightarrow>
          (case eval_args F as s1 of
             None \<Rightarrow> None
           | Some (vs, s2) \<Rightarrow> Some (v # vs, s2)))"
| "eval_stmts F [] s = Some s"
| "eval_stmts F (t # ts) s =
     (case eval F t s of
        None \<Rightarrow> None
      | Some (v, s1) \<Rightarrow> eval_stmts F ts s1)"

text \<open>\<open>exec\<close> runs a statement for its effect.\<close>

definition exec :: "fenv \<Rightarrow> tree \<Rightarrow> state \<Rightarrow> state option" where
  "exec F t s = (case eval F t s of None \<Rightarrow> None | Some (v, s1) \<Rightarrow> Some s1)"

section \<open>Notions used to state the properties\<close>

text \<open>
  The statements of a tree as \<^verbatim>\<open>append_to_statement_list\<close> sees them, a
  \<^verbatim>\<open>printf\<close> of a text without conversions as a step on states, and sequencing of
  steps that may be undefined.
\<close>

definition stmts_of :: "tree \<Rightarrow> tree list" where
  "stmts_of t = (case t of STATEMENT_LIST ys \<Rightarrow> ys | _ \<Rightarrow> [t])"

definition printf_text :: "string \<Rightarrow> state \<Rightarrow> state" where
  "printf_text str s = emit str (called ''printf'' s)"

definition then_opt :: "state option \<Rightarrow> (state \<Rightarrow> state option) \<Rightarrow> state option" where
  "then_opt r k = (case r of None \<Rightarrow> None | Some s \<Rightarrow> k s)"

text \<open>
  \<open>render F e\<close> runs the diagnostic code that the run-time rewrite generates for \<open>e\<close>,
  with \<^verbatim>\<open>printf\<close> resolved as \<^verbatim>\<open>patch_assert\<close> resolves it.
\<close>

definition render :: "fenv \<Rightarrow> tree \<Rightarrow> state \<Rightarrow> state option" where
  "render F e s = exec F (make_conditional_expr_repr (lookup_name ''printf'') e) s"

text \<open>
  The spec's words for the static rewrite: the leaves of a condition, "in strict
  left-to-right (source) order", a leaf being a node whose kind is absent from the operator
  table; and the whole template, each operand of a recognized operator in parentheses,
  before any cut to the size of the buffer.
\<close>

fun leaves :: "tree \<Rightarrow> tree list" where
  "leaves (BINARY code l r) =
     (case get_expr_op_repr (BINARY code l r) of
        Some op \<Rightarrow> leaves l @ leaves r
      | None \<Rightarrow> [BINARY code l r])"
| "leaves expr = [expr]"

fun template :: "tree \<Rightarrow> string" where
  "template (BINARY code l r) =
     (case get_expr_op_repr (BINARY code l r) of
        Some op \<Rightarrow> ''('' @ template l @ '') '' @ op @ '' ('' @ template r @ '')''
      | None \<Rightarrow> ''%d'')"
| "template expr = ''%d''"

text \<open>
  What the walk over a function body may change: the failure branch of a conditional of
  the assertion shape that is the body of a \<^verbatim>\<open>BIND_EXPR\<close>, and nothing else.
\<close>

inductive only_else_replaced :: "tree \<Rightarrow> tree \<Rightarrow> bool" where
  unchanged: "only_else_replaced t t"
| failure_branch:
    "is_assert_fail_cond_expr (COND_EXPR c t e) \<Longrightarrow>
     only_else_replaced (BIND_EXPR (COND_EXPR c t e)) (BIND_EXPR (COND_EXPR c t e'))"
| in_block:
    "list_all2 only_else_replaced ss ss' \<Longrightarrow>
     only_else_replaced (BIND_EXPR (STATEMENT_LIST ss)) (BIND_EXPR (STATEMENT_LIST ss'))"
| in_list:
    "list_all2 only_else_replaced ss ss' \<Longrightarrow>
     only_else_replaced (STATEMENT_LIST ss) (STATEMENT_LIST ss')"

text \<open>
  The blocks a walk reaches. The walk goes from a block (a \<^verbatim>\<open>BIND_EXPR\<close> or a
  \<^verbatim>\<open>STATEMENT_LIST\<close>) to the members of its statement list, which is the block
  itself or the body of the block, and enters the members that are \<^verbatim>\<open>BIND_EXPR\<close>s,
  no others. \<open>block_at p root\<close> is the block reached from \<open>root\<close> by entering, in turn,
  the members numbered \<open>p\<close>.
\<close>

fun members :: "tree \<Rightarrow> tree list option" where
  "members (BIND_EXPR (STATEMENT_LIST ss)) = Some ss"
| "members (STATEMENT_LIST ss) = Some ss"
| "members t = None"

fun block_at :: "nat list \<Rightarrow> tree \<Rightarrow> tree option" where
  "block_at [] t = Some t"
| "block_at (i # p) t =
     (case members t of
        None \<Rightarrow> None
      | Some ss \<Rightarrow>
          if i < length ss then
            (case ss ! i of BIND_EXPR b \<Rightarrow> block_at p (ss ! i) | _ \<Rightarrow> None)
          else None)"

section \<open>Example programs\<close>

text \<open>
  The assertion of a condition as the C front end hands it over,
  \<^verbatim>\<open>cond ? (void)0 : __assert_fail(..)\<close>, and the conditions of the examples:
  the operands \<^verbatim>\<open>x == 1\<close> and \<^verbatim>\<open>y == 2\<close>,
  \<^verbatim>\<open>call(n) % 2 == 0 && n - 100 == 150\<close>, \<^verbatim>\<open>(a + b) * c == 0\<close>,
  \<^verbatim>\<open>a + (b * c) == 0\<close>, and a sum \<^verbatim>\<open>a + a + .. + a\<close> of \<open>n + 1\<close> operands.
\<close>

definition assert_fail_call :: tree where
  "assert_fail_call =
     CALL_EXPR (UNARY ADDR_EXPR (DECL FUNCTION_DECL ''__assert_fail''))
       [UNARY ADDR_EXPR (STRING_CST ''cond''), UNARY ADDR_EXPR (STRING_CST ''dummy.c''),
        INTEGER_CST 5, UNARY ADDR_EXPR (STRING_CST ''test'')]"

definition assert_of :: "tree \<Rightarrow> tree" where
  "assert_of cond = COND_EXPR cond (UNARY NOP_EXPR (INTEGER_CST 0)) assert_fail_call"

definition x_eq_1 :: tree where
  "x_eq_1 = BINARY EQ_EXPR (DECL VAR_DECL ''x'') (INTEGER_CST 1)"

definition y_eq_2 :: tree where
  "y_eq_2 = BINARY EQ_EXPR (DECL VAR_DECL ''y'') (INTEGER_CST 2)"

definition cond_call :: tree where
  "cond_call =
     BINARY TRUTH_ANDIF_EXPR
       (BINARY EQ_EXPR
          (BINARY TRUNC_MOD_EXPR
             (CALL_EXPR (UNARY ADDR_EXPR (DECL FUNCTION_DECL ''call'')) [DECL PARM_DECL ''n''])
             (INTEGER_CST 2))
          (INTEGER_CST 0))
       (BINARY EQ_EXPR
          (BINARY MINUS_EXPR (DECL PARM_DECL ''n'') (INTEGER_CST 100))
          (INTEGER_CST 150))"



fun sum_chain :: "nat \<Rightarrow> tree" where
  "sum_chain 0 = DECL VAR_DECL ''a''"
| "sum_chain (Suc n) = BINARY PLUS_EXPR (sum_chain n) (DECL VAR_DECL ''a'')"

text \<open>
  Start states: nothing called, nothing printed, the variables as given. Function
  environments: one without side effects that returns its first argument plus 7, one that
  returns its first argument.
\<close>

definition start :: "(string \<times> int) list \<Rightarrow> state" where
  "start bindings =
     \<lparr>vars = (\<lambda>name. case map_of bindings name of Some v \<Rightarrow> v | None \<Rightarrow> 0),
      calls = [], out = []\<rparr>"

definition plus_7 :: fenv where
  "plus_7 name args st = (case args of [] \<Rightarrow> 0 | a # rest \<Rightarrow> a + 7, st)"

definition same_value :: fenv where
  "same_value name args st = (case args of [] \<Rightarrow> 0 | a # rest \<Rightarrow> a, st)"

text \<open>
  One run-time check of the assertion of \<open>cond\<close> after the rewrite \<open>patch\<close>, and a
  condition whose evaluation is undefined, \<^verbatim>\<open>1 / 0 == 2\<close>.
\<close>

definition check :: "(tree \<Rightarrow> error + tree) \<Rightarrow> fenv \<Rightarrow> tree \<Rightarrow> state \<Rightarrow> state option" where
  "check patch F cond s =
     (case patch (assert_of cond) of Inl err \<Rightarrow> None | Inr t \<Rightarrow> exec F t s)"

definition poison :: tree where
  "poison =
     BINARY EQ_EXPR (BINARY TRUNC_DIV_EXPR (INTEGER_CST 1) (INTEGER_CST 0)) (INTEGER_CST 2)"

text \<open>
  A call of \<^verbatim>\<open>abort\<close>, and the operand \<^verbatim>\<open>call(n) % 2\<close>, whose operator is not
  in the table.
\<close>

definition abort_call :: tree where
  "abort_call = CALL_EXPR (UNARY ADDR_EXPR (DECL FUNCTION_DECL ''abort'')) []"

definition call_n_mod_2 :: tree where
  "call_n_mod_2 =
     BINARY TRUNC_MOD_EXPR
       (CALL_EXPR (UNARY ADDR_EXPR (DECL FUNCTION_DECL ''call'')) [DECL PARM_DECL ''n''])
       (INTEGER_CST 2)"

text \<open>
  A condition whose left operand has a side effect, \<^verbatim>\<open>next() && probe() == 2\<close>, and
  an environment in which \<^verbatim>\<open>next\<close> returns the variable \<open>k\<close> and flips it between
  0 and 1, and every other function returns 5.
\<close>

definition toggle :: fenv where
  "toggle name args st =
     (if name = ''next'' then (st ''k'', st(''k'' := 1 - st ''k'')) else (5, st))"

definition cond_next :: tree where
  "cond_next =
     BINARY TRUTH_ANDIF_EXPR
       (CALL_EXPR (UNARY ADDR_EXPR (DECL FUNCTION_DECL ''next'')) [])
       (BINARY EQ_EXPR
          (CALL_EXPR (UNARY ADDR_EXPR (DECL FUNCTION_DECL ''probe'')) [])
          (INTEGER_CST 2))"

text \<open>
  The conditions \<^verbatim>\<open>next() && y == 2\<close> and \<^verbatim>\<open>next() || y == 2\<close>, whose left operand
  has a side effect.
\<close>

definition next_call :: tree where
  "next_call = CALL_EXPR (UNARY ADDR_EXPR (DECL FUNCTION_DECL ''next'')) []"

definition cond_next_and_y :: tree where
  "cond_next_and_y = BINARY TRUTH_ANDIF_EXPR next_call y_eq_2"

definition cond_next_or_y :: tree where
  "cond_next_or_y = BINARY TRUTH_ORIF_EXPR next_call y_eq_2"

text \<open>
  A function body with four statements: the block of an assertion, an assertion that
  stands in the list without a block of its own, a block nested directly in a block, and
  \<^verbatim>\<open>if (x == 1) { assert(y == 2); }\<close>; and the same body with the first assertion
  rewritten by the run-time plug-in.
\<close>

definition if_with_assert :: tree where
  "if_with_assert =
     COND_EXPR x_eq_1 (BIND_EXPR (assert_of y_eq_2)) (UNARY NOP_EXPR (INTEGER_CST 0))"

definition function_body :: tree where
  "function_body =
     BIND_EXPR
       (STATEMENT_LIST
          [BIND_EXPR (assert_of x_eq_1),
           assert_of y_eq_2,
           BIND_EXPR (BIND_EXPR (assert_of x_eq_1)),
           if_with_assert])"

definition function_body_rewritten :: tree where
  "function_body_rewritten =
     BIND_EXPR
       (STATEMENT_LIST
          [BIND_EXPR
             (COND_EXPR x_eq_1 (UNARY NOP_EXPR (INTEGER_CST 0))
                (make_conditional_expr_repr (lookup_name ''printf'') x_eq_1)),
           assert_of y_eq_2,
           BIND_EXPR (BIND_EXPR (assert_of x_eq_1)),
           if_with_assert])"

section \<open>Statement lists and literal prints\<close>

lemma append_to_statement_list_stmts:
  "append_to_statement_list t (STATEMENT_LIST xs) = STATEMENT_LIST (xs @ stmts_of t)"
  by (cases t) (simp_all add: stmts_of_def)

lemma eval_stmts_append:
  "eval_stmts F (xs @ ys) s =
     (case eval_stmts F xs s of None \<Rightarrow> None | Some s1 \<Rightarrow> eval_stmts F ys s1)"
  by (induction xs arbitrary: s) (auto split: option.splits)

lemma eval_stmts_stmts_of: "eval_stmts F (stmts_of t) s = exec F t s"
  by (cases t) (auto simp: stmts_of_def exec_def split: option.splits)

lemma printf_format_plain:
  "CHR ''%'' \<notin> set str \<Longrightarrow> printf_format str vs = Some (str, vs)"
  by (induction str) auto

lemma make_printf_None:
  "make_printf P str None = CALL_EXPR (UNARY ADDR_EXPR P) [UNARY ADDR_EXPR (STRING_CST str)]"
  by (simp add: make_printf_def build_string_literal_def build_call_expr_loc_def)

lemma make_printf_Some:
  "make_printf P str (Some a) =
     CALL_EXPR (UNARY ADDR_EXPR P) (UNARY ADDR_EXPR (STRING_CST str) # a)"
  by (simp add: make_printf_def build_string_literal_def build_call_expr_loc_vec_def)

lemma exec_printf_plain:
  "CHR ''%'' \<notin> set str \<Longrightarrow>
   exec F (make_printf (lookup_name ''printf'') str None) s = Some (printf_text str s)"
  by (simp add: exec_def make_printf_None lookup_name_def printf_format_plain printf_text_def)

lemma exec_printf_value:
  "exec F (make_printf (lookup_name ''printf'') ''%d'' (Some [e])) s =
     (case eval F e s of
        None \<Rightarrow> None
      | Some (v, s1) \<Rightarrow> Some (printf_text (show_int v) s1))"
  by (auto simp: exec_def make_printf_Some lookup_name_def printf_text_def split: option.splits)

lemma exec_list: "exec F (STATEMENT_LIST ss) s = eval_stmts F ss s"
  by (simp add: exec_def split: option.splits)

lemma exec_cond:
  "exec F (COND_EXPR c t e) s =
     (case eval F c s of
        None \<Rightarrow> None
      | Some (v, s1) \<Rightarrow> if v = 0 then exec F e s1 else exec F t s1)"
  by (simp add: exec_def split: option.splits)

lemma then_opt_simps [simp]: "then_opt None k = None" "then_opt (Some s) k = k s"
  by (simp_all add: then_opt_def)

lemma then_opt_Some [simp]: "then_opt r Some = r"
  by (simp add: then_opt_def split: option.splits)

lemma eval_stmts_Cons:
  "eval_stmts F (t # ts) s = then_opt (exec F t s) (\<lambda>s1. eval_stmts F ts s1)"
  by (simp add: exec_def then_opt_def split: option.splits)

lemma eval_stmts_app:
  "eval_stmts F (xs @ ys) s = then_opt (eval_stmts F xs s) (\<lambda>s1. eval_stmts F ys s1)"
  by (simp add: eval_stmts_append then_opt_def)

lemmas run_stmts =
  exec_list eval_stmts_Cons eval_stmts_app eval_stmts_stmts_of exec_printf_plain

section \<open>The shape of the generated code\<close>

lemma make_conditional_expr_repr_and:
  assumes "code = TRUTH_ANDIF_EXPR \<or> code = TRUTH_AND_EXPR"
  shows "make_conditional_expr_repr P (BINARY code l r) =
     COND_EXPR l
       (STATEMENT_LIST (make_printf P ''(...) && ('' None #
          stmts_of (make_conditional_expr_repr P r) @ [make_printf P '')'' None]))
       (STATEMENT_LIST (stmts_of (make_conditional_expr_repr P l)))"
  using assms
  by (auto simp: Let_def alloc_stmt_list_def build_conditional_expr_def
      append_to_statement_list_stmts make_printf_None stmts_of_def)

lemma make_conditional_expr_repr_or:
  assumes "code = TRUTH_ORIF_EXPR \<or> code = TRUTH_OR_EXPR"
  shows "make_conditional_expr_repr P (BINARY code l r) =
     COND_EXPR (BINARY code l r) (UNARY NOP_EXPR (INTEGER_CST 0))
       (STATEMENT_LIST (make_printf P ''('' None #
          stmts_of (make_conditional_expr_repr P l) @ make_printf P '') || ('' None #
          stmts_of (make_conditional_expr_repr P r) @ [make_printf P '')'' None]))"
  using assms
  by (auto simp: Let_def alloc_stmt_list_def build_conditional_expr_def build_empty_stmt_def
      append_to_statement_list_stmts make_printf_None stmts_of_def)

lemma make_conditional_expr_repr_binary:
  assumes "code \<noteq> TRUTH_ANDIF_EXPR" "code \<noteq> TRUTH_AND_EXPR"
    "code \<noteq> TRUTH_ORIF_EXPR" "code \<noteq> TRUTH_OR_EXPR"
    "get_expr_op_repr (BINARY code l r) = Some op"
  shows "make_conditional_expr_repr P (BINARY code l r) =
     STATEMENT_LIST (stmts_of (make_conditional_expr_repr P l) @
       make_printf P (snprintf 64 ('' '' @ op @ '' '')) None #
       stmts_of (make_conditional_expr_repr P r))"
  using assms
  by (simp add: Let_def alloc_stmt_list_def append_to_statement_list_stmts make_printf_None
      stmts_of_def)

lemma make_conditional_expr_repr_leaf:
  assumes "get_expr_op_repr e = None"
  shows "make_conditional_expr_repr P e = STATEMENT_LIST [make_printf P ''%d'' (Some [e])]"
proof (cases e)
  case (BINARY code l r)
  with assms show ?thesis
    by (auto simp: Let_def alloc_stmt_list_def append_to_statement_list_stmts make_printf_Some
        stmts_of_def)
qed (simp_all add: alloc_stmt_list_def append_to_statement_list_stmts make_printf_Some
    stmts_of_def)

section \<open>What the generated code prints\<close>

lemma render_and:
  assumes "code = TRUTH_ANDIF_EXPR \<or> code = TRUTH_AND_EXPR"
  shows "render F (BINARY code l r) s =
     (case eval F l s of
        None \<Rightarrow> None
      | Some (v, s1) \<Rightarrow>
          if v = 0 then render F l s1
          else then_opt (render F r (printf_text ''(...) && ('' s1))
                 (\<lambda>s2. Some (printf_text '')'' s2)))"
  unfolding render_def make_conditional_expr_repr_and[OF assms] exec_cond
  by (simp add: run_stmts del: eval_stmts.simps(2) split: option.splits)

lemma render_or:
  assumes "code = TRUTH_ORIF_EXPR \<or> code = TRUTH_OR_EXPR"
  shows "render F (BINARY code l r) s =
     (case eval F (BINARY code l r) s of
        None \<Rightarrow> None
      | Some (v, s1) \<Rightarrow>
          if v = 0 then
            then_opt (render F l (printf_text ''('' s1))
              (\<lambda>s2. then_opt (render F r (printf_text '') || ('' s2))
                (\<lambda>s3. Some (printf_text '')'' s3)))
          else Some s1)"
  unfolding render_def make_conditional_expr_repr_or[OF assms] exec_cond
  by (simp add: run_stmts exec_def[of F "UNARY NOP_EXPR (INTEGER_CST 0)"]
      del: eval_stmts.simps(2) eval.simps(5) split: option.splits)

lemma op_repr_plain:
  "get_expr_op_repr e = Some op \<Longrightarrow> CHR ''%'' \<notin> set op \<and> length op \<le> 2"
  by (cases e) (auto split: binary_code.splits)


lemma render_leaf:
  assumes "get_expr_op_repr e = None"
  shows "render F e s =
     (case eval F e s of
        None \<Rightarrow> None
      | Some (v, s1) \<Rightarrow> Some (printf_text (show_int v) s1))"
  unfolding render_def make_conditional_expr_repr_leaf[OF assms]
  by (simp add: exec_list eval_stmts_Cons exec_printf_value del: eval_stmts.simps(2)
      split: option.splits)

section \<open>The static template\<close>

lemma take_cut_inside: "take n (a @ take n b @ c) = take n (a @ b @ c)"
  by (cases "length b \<le> n") (auto simp: min_def)

lemma create_expression_repr_eq:
  "create_expression_repr e args = (take 1023 (template e), args @ leaves e)"
proof (induction e arbitrary: args)
  case (BINARY code l r)
  show ?case
  proof (cases "get_expr_op_repr (BINARY code l r)")
    case None
    then show ?thesis by simp
  next
    case (Some op)
    have "take 1023 (''('' @ take 1023 (template l) @ '') '' @ op @ '' ('' @
            take 1023 (template r) @ '')'')
        = take 1023 (''('' @ template l @ '') '' @ op @ '' ('' @ take 1023 (template r) @ '')'')"
      by (rule take_cut_inside)
    also have "\<dots> = take 1023 ((''('' @ template l @ '') '' @ op @ '' ('') @
            take 1023 (template r) @ '')'')"
      by simp
    also have "\<dots> = take 1023 ((''('' @ template l @ '') '' @ op @ '' ('') @ template r @ '')'')"
      by (rule take_cut_inside)
    finally show ?thesis
      using Some BINARY.IH by (simp add: snprintf_def del: get_expr_op_repr.simps)
  qed
qed simp_all

lemma printf_format_append:
  "printf_format xs vs = Some (t, vs') \<Longrightarrow>
   printf_format (xs @ ys) vs =
     (case printf_format ys vs' of
        None \<Rightarrow> None
      | Some (t', vs'') \<Rightarrow> Some (t @ t', vs''))"
proof (induction xs vs arbitrary: t vs' rule: printf_format.induct)
  case (1 vs)
  then show ?case by (simp split: option.splits)
next
  case (2 c cs vs)
  show ?case
  proof (cases "c = CHR ''%''")
    case True
    with "2.prems" obtain rest v vs1 t1 where cs: "cs = CHR ''d'' # rest"
      and vs: "vs = v # vs1" and r: "printf_format rest vs1 = Some (t1, vs')"
      and t: "t = show_int v @ t1"
      by (auto split: list.splits if_splits option.splits)
    from "2.IH"(1)[OF True cs refl vs r]
    show ?thesis using True cs vs t by (simp split: option.splits)
  next
    case False
    with "2.prems" obtain t1 where r: "printf_format cs vs = Some (t1, vs')"
      and t: "t = c # t1"
      by (auto split: option.splits)
    from "2.IH"(2)[OF False r]
    show ?thesis using False t by (simp split: option.splits)
  qed
qed

lemma printf_format_consumes:
  "printf_format fmt vs = Some (t, rest) \<Longrightarrow> 2 * length vs \<le> length fmt + 2 * length rest"
proof (induction fmt vs arbitrary: t rest rule: printf_format.induct)
  case (1 vs)
  then show ?case by simp
next
  case (2 c cs vs)
  then show ?case
    by (fastforce split: if_splits list.splits option.splits)
qed

lemma template_consumes_leaves:
  "length vs = length (leaves e) \<Longrightarrow>
   \<exists>t. printf_format (template e) (vs @ rest) = Some (t, rest)"
proof (induction e arbitrary: vs rest)
  case (BINARY code l r)
  show ?case
  proof (cases "get_expr_op_repr (BINARY code l r)")
    case None
    with BINARY.prems show ?thesis
      by (cases vs) (simp_all del: get_expr_op_repr.simps)
  next
    case (Some op)
    define vl where "vl = take (length (leaves l)) vs"
    define vr where "vr = drop (length (leaves l)) vs"
    from BINARY.prems Some have vs: "vs = vl @ vr" and ll: "length vl = length (leaves l)"
      and lr: "length vr = length (leaves r)"
      by (simp_all add: vl_def vr_def del: get_expr_op_repr.simps)
    from BINARY.IH(1)[OF ll, of "vr @ rest"] obtain tl where
      tl: "printf_format (template l) (vl @ vr @ rest) = Some (tl, vr @ rest)" by blast
    from BINARY.IH(2)[OF lr, of rest] obtain tr where
      tr: "printf_format (template r) (vr @ rest) = Some (tr, rest)" by blast
    from op_repr_plain[OF Some] have plain: "CHR ''%'' \<notin> set ('') '' @ op @ '' ('')"
      by simp
    have mid: "printf_format ('') '' @ op @ '' ('') (vr @ rest)
        = Some ('') '' @ op @ '' ('', vr @ rest)"
      by (rule printf_format_plain[OF plain])
    have close: "printf_format '')'' rest = Some ('')'', rest)"
      by (rule printf_format_plain) simp
    have "open": "printf_format ''('' (vl @ vr @ rest) = Some (''('', vl @ vr @ rest)"
      by (rule printf_format_plain) simp
    have s3: "printf_format (template r @ '')'') (vr @ rest) = Some (tr @ '')'', rest)"
      by (simp only: printf_format_append[OF tr] close option.case prod.case)
    have s2: "printf_format (('') '' @ op @ '' ('') @ (template r @ '')'')) (vr @ rest)
        = Some (('') '' @ op @ '' ('') @ (tr @ '')''), rest)"
      by (simp only: printf_format_append[OF mid] s3 option.case prod.case)
    have s1: "printf_format (template l @ (('') '' @ op @ '' ('') @ (template r @ '')'')))
          (vl @ vr @ rest)
        = Some (tl @ (('') '' @ op @ '' ('') @ (tr @ '')'')), rest)"
      by (simp only: printf_format_append[OF tl] s2 option.case prod.case)
    have s0: "printf_format
          (''('' @ (template l @ (('') '' @ op @ '' ('') @ (template r @ '')''))))
          (vl @ vr @ rest)
        = Some (''('' @ (tl @ (('') '' @ op @ '' ('') @ (tr @ '')''))), rest)"
      by (simp only: printf_format_append[OF "open"] s1 option.case prod.case)
    have tmpl: "template (BINARY code l r)
        = ''('' @ (template l @ (('') '' @ op @ '' ('') @ (template r @ '')'')))"
      using Some by (simp del: get_expr_op_repr.simps)
    show ?thesis
      unfolding tmpl vs append_assoc using s0[unfolded append_assoc] by (rule exI)
  qed
qed (case_tac vs; simp)+

lemma length_leaves_sum_chain: "length (leaves (sum_chain n)) = Suc n"
  by (induction n) simp_all

section \<open>The walk over a function body\<close>

lemma is_assert_fail_cond_expr_iff:
  "is_assert_fail_cond_expr expr \<longleftrightarrow>
     (\<exists>c x args. expr =
        COND_EXPR c (UNARY NOP_EXPR x)
          (CALL_EXPR (UNARY ADDR_EXPR (DECL FUNCTION_DECL ''__assert_fail'')) args))"
  by (auto simp: is_assert_fail_cond_expr_def
      split: tree.splits unary_code.splits decl_code.splits)

lemma iterate_stmts_append:
  "iterate_stmts patch (xs @ ys) =
     (case iterate_stmts patch xs of
        Inl err \<Rightarrow> Inl err
      | Inr xs' \<Rightarrow>
          (case iterate_stmts patch ys of
             Inl err \<Rightarrow> Inl err
           | Inr ys' \<Rightarrow> Inr (xs' @ ys')))"
  by (induction xs) (auto split: sum.splits tree.splits)

lemma make_conditional_expr_repr_not_call:
  "make_conditional_expr_repr P c \<noteq> CALL_EXPR f a"
  by (cases c)
    (auto simp: Let_def alloc_stmt_list_def build_conditional_expr_def
      append_to_statement_list_stmts split: option.splits)

lemma iterate_total:
  "\<forall>c t e. \<exists>b. patch (COND_EXPR c t e) = Inr b \<Longrightarrow>
     (\<forall>b. expr \<noteq> BIND_EXPR b) \<and> (\<forall>ss. expr \<noteq> STATEMENT_LIST ss) \<or>
     (\<exists>t'. iterate_function_body patch expr = Inr t')"
  "\<forall>c t e. \<exists>b. patch (COND_EXPR c t e) = Inr b \<Longrightarrow> \<exists>ss'. iterate_stmts patch ss = Inr ss'"
proof (induction patch expr and patch ss rule: iterate_function_body_iterate_stmts.induct)
  case (1 patch body)
  show ?case
  proof (cases body)
    case (STATEMENT_LIST ss)
    with 1 show ?thesis by auto
  next
    case (COND_EXPR c t e)
    with "1.prems" obtain b where "patch (COND_EXPR c t e) = Inr b" by blast
    with COND_EXPR show ?thesis by simp
  qed (auto simp: is_assert_fail_cond_expr_def)
next
  case (2 patch ss)
  then show ?case by auto
next
  case (5 patch stmt rest)
  have "\<exists>s'. (case stmt of BIND_EXPR b \<Rightarrow> iterate_function_body patch stmt | _ \<Rightarrow> Inr stmt)
      = Inr s'"
  proof (cases stmt)
    case (BIND_EXPR b)
    with "5.IH"(1)[OF BIND_EXPR "5.prems"] show ?thesis
      by (simp del: iterate_function_body.simps)
  qed simp_all
  then obtain s' where
    h: "(case stmt of BIND_EXPR b \<Rightarrow> iterate_function_body patch stmt | _ \<Rightarrow> Inr stmt) = Inr s'"
    by blast
  with "5.IH"(2) "5.prems" obtain rest' where "iterate_stmts patch rest = Inr rest'"
    by blast
  with h show ?case
    by (simp del: iterate_function_body.simps)
qed auto

lemma iterate_frame:
  "\<forall>c t e b. patch (COND_EXPR c t e) = Inr b \<longrightarrow> (\<exists>e'. b = COND_EXPR c t e') \<Longrightarrow>
     iterate_function_body patch expr = Inr expr' \<Longrightarrow> only_else_replaced expr expr'"
  "\<forall>c t e b. patch (COND_EXPR c t e) = Inr b \<longrightarrow> (\<exists>e'. b = COND_EXPR c t e') \<Longrightarrow>
     iterate_stmts patch ss = Inr ss' \<Longrightarrow> list_all2 only_else_replaced ss ss'"
proof (induction patch expr and patch ss arbitrary: expr' and ss'
    rule: iterate_function_body_iterate_stmts.induct)
  case (1 patch body)
  show ?case
  proof (cases body)
    case (STATEMENT_LIST ss)
    with "1.prems" obtain ss1 where r: "iterate_stmts patch ss = Inr ss1"
      and e: "expr' = BIND_EXPR (STATEMENT_LIST ss1)"
      by (auto split: sum.splits)
    from "1.IH"[OF STATEMENT_LIST "1.prems"(1) r] show ?thesis
      unfolding e STATEMENT_LIST by (rule only_else_replaced.in_block)
  next
    case (COND_EXPR c t e)
    show ?thesis
    proof (cases "is_assert_fail_cond_expr body")
      case True
      with "1.prems"(2) COND_EXPR obtain b where p: "patch (COND_EXPR c t e) = Inr b"
        and e: "expr' = BIND_EXPR b"
        by (auto split: sum.splits)
      from "1.prems"(1) p obtain e' where "b = COND_EXPR c t e'" by blast
      with True show ?thesis
        unfolding e COND_EXPR by (simp add: only_else_replaced.failure_branch)
    next
      case False
      with "1.prems"(2) COND_EXPR show ?thesis
        by (auto intro: only_else_replaced.unchanged)
    qed
  qed (use "1.prems"(2) in \<open>auto simp: is_assert_fail_cond_expr_def
        intro: only_else_replaced.unchanged\<close>)
next
  case (2 patch ss)
  then show ?case
    by (auto split: sum.splits intro: only_else_replaced.in_list)
next
  case (5 patch stmt rest)
  from "5.prems"(2) obtain stmt1 rest1 where ss': "ss' = stmt1 # rest1"
    and h: "(case stmt of BIND_EXPR b \<Rightarrow> iterate_function_body patch stmt | _ \<Rightarrow> Inr stmt)
        = Inr stmt1"
    and r: "iterate_stmts patch rest = Inr rest1"
    by (auto split: sum.splits)
  have "only_else_replaced stmt stmt1"
  proof (cases stmt)
    case (BIND_EXPR b)
    with h have "iterate_function_body patch stmt = Inr stmt1" by simp
    from "5.IH"(1)[OF BIND_EXPR "5.prems"(1) this] show ?thesis .
  qed (use h in \<open>auto intro: only_else_replaced.unchanged\<close>)
  moreover have "list_all2 only_else_replaced rest rest1"
    using "5.IH"(2) "5.prems"(1) h r by blast
  ultimately show ?case unfolding ss' by simp
qed auto

lemma iterate_stmts_nth:
  "iterate_stmts patch ss = Inr ss' \<Longrightarrow>
   length ss' = length ss \<and>
   (\<forall>i<length ss.
      (\<forall>b. ss ! i = BIND_EXPR b \<longrightarrow> iterate_function_body patch (ss ! i) = Inr (ss' ! i)) \<and>
      ((\<forall>b. ss ! i \<noteq> BIND_EXPR b) \<longrightarrow> ss' ! i = ss ! i))"
proof (induction ss arbitrary: ss')
  case Nil
  then show ?case by simp
next
  case (Cons stmt rest)
  from Cons.prems obtain stmt1 rest1 where ss': "ss' = stmt1 # rest1"
    and h: "(case stmt of BIND_EXPR b \<Rightarrow> iterate_function_body patch stmt | _ \<Rightarrow> Inr stmt)
        = Inr stmt1"
    and r: "iterate_stmts patch rest = Inr rest1"
    by (auto split: sum.splits simp del: iterate_function_body.simps)
  from Cons.IH[OF r] have len: "length rest1 = length rest"
    and rest: "\<forall>i<length rest.
      (\<forall>b. rest ! i = BIND_EXPR b \<longrightarrow> iterate_function_body patch (rest ! i) = Inr (rest1 ! i)) \<and>
      ((\<forall>b. rest ! i \<noteq> BIND_EXPR b) \<longrightarrow> rest1 ! i = rest ! i)"
    by blast+
  have first: "(\<forall>b. stmt = BIND_EXPR b \<longrightarrow> iterate_function_body patch stmt = Inr stmt1) \<and>
      ((\<forall>b. stmt \<noteq> BIND_EXPR b) \<longrightarrow> stmt1 = stmt)"
    using h by (cases stmt) (auto simp del: iterate_function_body.simps)
  show ?case
  proof (intro conjI allI impI)
    show "length ss' = length (stmt # rest)" using ss' len by simp
  next
    fix i b assume "i < length (stmt # rest)" "(stmt # rest) ! i = BIND_EXPR b"
    then show "iterate_function_body patch ((stmt # rest) ! i) = Inr (ss' ! i)"
      using first rest ss' by (cases i) (auto simp del: iterate_function_body.simps)
  next
    fix i assume "i < length (stmt # rest)" "\<forall>b. (stmt # rest) ! i \<noteq> BIND_EXPR b"
    then show "ss' ! i = (stmt # rest) ! i"
      using first rest ss' by (cases i) (auto simp del: iterate_function_body.simps)
  qed
qed

lemma iterate_members:
  "iterate_function_body patch t = Inr t' \<Longrightarrow> members t = Some ss \<Longrightarrow>
   \<exists>ss'. members t' = Some ss' \<and> iterate_stmts patch ss = Inr ss'"
  by (cases t rule: members.cases) (auto split: sum.splits)

lemma iterate_block_result:
  "iterate_function_body patch (BIND_EXPR b) = Inr t' \<Longrightarrow> \<exists>b'. t' = BIND_EXPR b'"
  by (cases b) (auto split: sum.splits if_splits tree.splits)

lemma block_at_iterate:
  "iterate_function_body patch root = Inr root' \<Longrightarrow> block_at p root = Some blk \<Longrightarrow>
   \<exists>blk'. block_at p root' = Some blk' \<and> iterate_function_body patch blk = Inr blk'"
proof (induction p arbitrary: root root')
  case Nil
  then show ?case by simp
next
  case (Cons i q)
  from Cons.prems(2) obtain ss b where m: "members root = Some ss" and i: "i < length ss"
    and b: "ss ! i = BIND_EXPR b" and q: "block_at q (ss ! i) = Some blk"
    by (auto split: option.splits if_splits tree.splits)
  from iterate_members[OF Cons.prems(1) m] obtain ss' where m': "members root' = Some ss'"
    and r: "iterate_stmts patch ss = Inr ss'"
    by blast
  from iterate_stmts_nth[OF r] i b have len: "length ss' = length ss"
    and w: "iterate_function_body patch (ss ! i) = Inr (ss' ! i)"
    by blast+
  from w obtain b' where b': "ss' ! i = BIND_EXPR b'"
    unfolding b using iterate_block_result by blast
  from Cons.IH[OF w q] obtain blk' where "block_at q (ss' ! i) = Some blk'"
    and "iterate_function_body patch blk = Inr blk'"
    by blast
  then show ?case
    using m' len i b' by simp
qed

lemma patch_assert_total: "\<forall>c t e. \<exists>b. patch_assert (COND_EXPR c t e) = Inr b"
  by (simp add: Let_def)

lemma patch_assert_frame:
  "\<forall>c t e b. patch_assert (COND_EXPR c t e) = Inr b \<longrightarrow> (\<exists>e'. b = COND_EXPR c t e')"
  by (auto simp: Let_def)

lemma patch_assert_static_frame:
  "\<forall>c t e b. patch_assert_static (COND_EXPR c t e) = Inr b \<longrightarrow> (\<exists>e'. b = COND_EXPR c t e')"
  by (auto simp: Let_def split: prod.splits)

lemma patch_assert_basic_frame:
  "\<forall>c t e b. patch_assert_basic (COND_EXPR c t e) = Inr b \<longrightarrow> (\<exists>e'. b = COND_EXPR c t e')"
  by (auto simp: Let_def split: sum.splits)

lemma iterate_mismatch:
  assumes "\<not> is_assert_fail_cond_expr body" and "\<forall>ss. body \<noteq> STATEMENT_LIST ss"
  shows "iterate_function_body patch (BIND_EXPR body) = Inr (BIND_EXPR body)"
  using assms by (cases body) simp_all

lemma assert_of_shape: "is_assert_fail_cond_expr (assert_of cond)"
  by (simp add: is_assert_fail_cond_expr_def assert_of_def assert_fail_call_def)

section \<open>Single evaluation\<close>

text \<open>
  C1. The claim: every operand of the condition is evaluated at most once per run-time
  check of the assertion, and for \<^verbatim>\<open>call(n) % 2 == 0 && n - 100 == 150\<close> checked with
  \<open>n = 5\<close> the function \<^verbatim>\<open>call\<close> runs exactly once. The plug-ins of the repository
  put the operands of the condition into the failure branch a second time without a
  memoizing wrapper: the condition alone runs \<^verbatim>\<open>call\<close> once, the failing check runs
  it twice after the run-time rewrite when \<^verbatim>\<open>call(5)\<close> is even, three times when it
  is odd, and twice after the static rewrite.
\<close>

theorem call_runs_more_than_once:
  "map_option (\<lambda>s. count_list (calls s) ''call'') (exec plus_7 cond_call (start [(''n'', 5)]))
     = Some 1 \<and>
   map_option (\<lambda>s. count_list (calls s) ''call'')
     (check patch_assert plus_7 cond_call (start [(''n'', 5)])) = Some 2 \<and>
   map_option (\<lambda>s. count_list (calls s) ''call'')
     (check patch_assert same_value cond_call (start [(''n'', 5)])) = Some 3 \<and>
   map_option (\<lambda>s. count_list (calls s) ''call'')
     (check patch_assert_static plus_7 cond_call (start [(''n'', 5)])) = Some 2"
  by code_simp

section \<open>Logical AND\<close>

text \<open>
  C2. The claim: for every logical AND reached on the failure path the generated code
  branches on the truth value of the left operand, renders the left operand alone when it
  is false and the right operand between \<^verbatim>\<open>(...) && (\<close> and \<^verbatim>\<open>)\<close> when it is
  true. The generated code does not branch on the value the assertion found: it evaluates
  the left operand again. In a check of \<^verbatim>\<open>next() && y == 2\<close> with \<open>y = 5\<close>, when
  \<^verbatim>\<open>next\<close> returns 0 and then 1, the left operand is false in the assertion and the
  right operand is rendered; when \<^verbatim>\<open>next\<close> returns 1, then 0, then 1, the left
  operand is true in the assertion, the right one is what fails, and the left operand is
  rendered alone.
\<close>

theorem and_branch_taken_on_second_evaluation:
  "map_option fst (eval toggle next_call (start [(''k'', 0), (''y'', 5)])) = Some 0 \<and>
   map_option (\<lambda>(v, s). (v, calls s))
     (eval toggle cond_next_and_y (start [(''k'', 0), (''y'', 5)])) = Some (0, [''next'']) \<and>
   map_option out (check patch_assert toggle cond_next_and_y (start [(''k'', 0), (''y'', 5)]))
     = Some ''(...) && (5 == 2)'' \<and>
   map_option fst (eval toggle next_call (start [(''k'', 1), (''y'', 5)])) = Some 1 \<and>
   map_option (\<lambda>(v, s). (v, calls s))
     (eval toggle cond_next_and_y (start [(''k'', 1), (''y'', 5)])) = Some (0, [''next'']) \<and>
   map_option out (check patch_assert toggle cond_next_and_y (start [(''k'', 1), (''y'', 5)]))
     = Some ''1''"
  by code_simp

text \<open>
  What the generated code does ensure: it tests the left operand as it evaluates it at that
  point; when that value is false, only the code that renders the left operand runs, and
  the right operand does not occur in it; when it is true, \<^verbatim>\<open>(...) && (\<close> is printed,
  the right operand is rendered, and \<^verbatim>\<open>)\<close> is printed.
\<close>

lemma and_code_branches_on_left:
  assumes "code = TRUTH_ANDIF_EXPR \<or> code = TRUTH_AND_EXPR"
    and "eval F l s = Some (v, s1)"
  shows "render F (BINARY code l r) s =
     (if v = 0 then render F l s1
      else then_opt (render F r (printf_text ''(...) && ('' s1))
             (\<lambda>s2. Some (printf_text '')'' s2)))"
  by (simp add: render_and[OF assms(1)] assms(2))

text \<open>
  With operands that have no side effects the examples of the spec come out:
  \<^verbatim>\<open>(x == 1) && (y == 2)\<close> renders \<^verbatim>\<open>0 == 1\<close> with \<open>x = 0\<close>, and
  \<^verbatim>\<open>(...) && (5 == 2)\<close> with \<open>x = 1\<close>, \<open>y = 5\<close>.
\<close>

lemma and_code_examples:
  "eval plus_7 x_eq_1 (start [(''x'', 0)]) = Some (0, start [(''x'', 0)]) \<and>
   map_option out (render plus_7 (BINARY TRUTH_ANDIF_EXPR x_eq_1 y_eq_2) (start [(''x'', 0)]))
     = Some ''0 == 1'' \<and>
   eval plus_7 x_eq_1 (start [(''x'', 1), (''y'', 5)]) = Some (1, start [(''x'', 1), (''y'', 5)]) \<and>
   map_option out
     (render plus_7 (BINARY TRUTH_ANDIF_EXPR x_eq_1 y_eq_2) (start [(''x'', 1), (''y'', 5)]))
     = Some ''(...) && (5 == 2)''"
proof -
  have c: "TRUTH_ANDIF_EXPR = TRUTH_ANDIF_EXPR \<or> TRUTH_ANDIF_EXPR = TRUTH_AND_EXPR"
    by simp
  have l0: "eval plus_7 x_eq_1 (start [(''x'', 0)]) = Some (0, start [(''x'', 0)])"
    by (simp add: x_eq_1_def start_def truth_def)
  have l1: "eval plus_7 x_eq_1 (start [(''x'', 1), (''y'', 5)])
      = Some (1, start [(''x'', 1), (''y'', 5)])"
    by (simp add: x_eq_1_def start_def truth_def)
  have r0: "map_option out (render plus_7 x_eq_1 (start [(''x'', 0)])) = Some ''0 == 1''"
    by code_simp
  have r1: "map_option out
      (then_opt (render plus_7 y_eq_2 (printf_text ''(...) && ('' (start [(''x'', 1), (''y'', 5)])))
         (\<lambda>s2. Some (printf_text '')'' s2)))
      = Some ''(...) && (5 == 2)''"
    by code_simp
  show ?thesis
    using and_code_branches_on_left[OF c l0, of y_eq_2]
      and_code_branches_on_left[OF c l1, of y_eq_2] l0 l1 r0 r1
    by simp
qed

text \<open>
  C4. The claim: the generated code never reads or renders an operand that the
  short-circuit rules guarantee was not evaluated, the right operand of a logical AND whose
  left operand is false. The generated code does not use the value the assertion found for
  the left operand: it evaluates the left operand again. For
  \<^verbatim>\<open>next() && probe() == 2\<close>, with \<^verbatim>\<open>next\<close> returning 0 and then 1, the assertion
  finds the left operand false and calls nothing but \<^verbatim>\<open>next\<close>; the failure branch
  then finds the left operand true, calls \<^verbatim>\<open>probe\<close> for the first time and renders
  the right operand.
\<close>

theorem unevaluated_right_operand_read:
  "map_option (\<lambda>(v, s). (v, calls s)) (eval toggle cond_next (start [(''k'', 0)]))
     = Some (0, [''next'']) \<and>
   map_option (\<lambda>s. (out s, calls s)) (check patch_assert toggle cond_next (start [(''k'', 0)]))
     = Some (''(...) && (5 == 2)'',
         [''next'', ''next'', ''printf'', ''probe'', ''printf'', ''printf'', ''printf'',
          ''printf''])"
  by code_simp

text \<open>
  What the branch of the generated code does ensure: in every run in which the generated
  code itself finds the left operand of a logical AND false, the right operand is not
  read. The run is the run of the code that renders the left operand, and it is the same
  whatever the right operand is.
\<close>

lemma right_of_false_and_skipped:
  assumes "code = TRUTH_ANDIF_EXPR \<or> code = TRUTH_AND_EXPR"
    and "eval F l s = Some (0, s1)"
  shows "render F (BINARY code l r) s = render F l s1 \<and>
         render F (BINARY code l r) s = render F (BINARY code l r') s"
  by (simp add: render_and[OF assms(1)] assms(2))

text \<open>
  With \<open>x = 0\<close>, \<^verbatim>\<open>(x == 1) && (1 / 0 == 2)\<close> renders as
  \<^verbatim>\<open>(x == 1) && (y == 2)\<close> does, although evaluating its right operand is undefined.
\<close>

lemma right_of_false_and_skipped_example:
  "eval plus_7 x_eq_1 (start [(''x'', 0)]) = Some (0, start [(''x'', 0)]) \<and>
   eval plus_7 poison (start [(''x'', 0)]) = None \<and>
   render plus_7 (BINARY TRUTH_ANDIF_EXPR x_eq_1 poison) (start [(''x'', 0)])
     = render plus_7 (BINARY TRUTH_ANDIF_EXPR x_eq_1 y_eq_2) (start [(''x'', 0)]) \<and>
   map_option out (render plus_7 (BINARY TRUTH_ANDIF_EXPR x_eq_1 poison) (start [(''x'', 0)]))
     = Some ''0 == 1''"
proof -
  have c: "TRUTH_ANDIF_EXPR = TRUTH_ANDIF_EXPR \<or> TRUTH_ANDIF_EXPR = TRUTH_AND_EXPR"
    by simp
  have l0: "eval plus_7 x_eq_1 (start [(''x'', 0)]) = Some (0, start [(''x'', 0)])"
    by (simp add: x_eq_1_def start_def truth_def)
  have p: "eval plus_7 poison (start [(''x'', 0)]) = None"
    by (simp add: poison_def)
  have r0: "map_option out (render plus_7 x_eq_1 (start [(''x'', 0)])) = Some ''0 == 1''"
    by code_simp
  have a: "render plus_7 (BINARY TRUTH_ANDIF_EXPR x_eq_1 poison) (start [(''x'', 0)])
      = render plus_7 x_eq_1 (start [(''x'', 0)])"
    and b: "render plus_7 (BINARY TRUTH_ANDIF_EXPR x_eq_1 poison) (start [(''x'', 0)])
      = render plus_7 (BINARY TRUTH_ANDIF_EXPR x_eq_1 y_eq_2) (start [(''x'', 0)])"
    using right_of_false_and_skipped[OF c l0, of poison y_eq_2] by blast+
  show ?thesis
    by (intro conjI l0 p b r0[folded a])
qed

section \<open>Logical OR\<close>

text \<open>
  C3. The claim: the generated code branches on the truth value of the whole OR, renders
  nothing when it is true and \<^verbatim>\<open>(\<close>, the left operand, \<^verbatim>\<open>) || (\<close>, the right
  operand and \<^verbatim>\<open>)\<close> when it is false. The generated code does not branch on the value
  the assertion found: it evaluates the whole OR again. In a check of
  \<^verbatim>\<open>next() || y == 2\<close> with \<open>y = 5\<close>, when \<^verbatim>\<open>next\<close> returns 0 and then 1, the OR
  is false in the assertion, the assertion fails, and the failure branch finds the OR
  true and renders nothing.
\<close>

theorem false_or_renders_nothing_on_second_evaluation:
  "map_option (\<lambda>(v, s). (v, calls s))
     (eval toggle cond_next_or_y (start [(''k'', 0), (''y'', 5)])) = Some (0, [''next'']) \<and>
   map_option (\<lambda>s. (out s, calls s))
     (check patch_assert toggle cond_next_or_y (start [(''k'', 0), (''y'', 5)]))
     = Some ([], [''next'', ''next''])"
  by code_simp

text \<open>
  What the generated code does ensure: it tests the whole OR as it evaluates it at that
  point; when that value is true nothing is rendered, when it is false \<^verbatim>\<open>(\<close>, the left
  operand, \<^verbatim>\<open>) || (\<close>, the right operand and \<^verbatim>\<open>)\<close> are rendered in this order.
\<close>

lemma or_code_branches_on_whole:
  assumes "code = TRUTH_ORIF_EXPR \<or> code = TRUTH_OR_EXPR"
    and "eval F (BINARY code l r) s = Some (v, s1)"
  shows "render F (BINARY code l r) s =
     (if v = 0 then
        then_opt (render F l (printf_text ''('' s1))
          (\<lambda>s2. then_opt (render F r (printf_text '') || ('' s2))
            (\<lambda>s3. Some (printf_text '')'' s3)))
      else Some s1)"
  by (simp add: render_or[OF assms(1)] assms(2) del: eval.simps(5))

text \<open>
  With operands that have no side effects the examples of the spec come out:
  \<^verbatim>\<open>(x == 1) || (y == 2)\<close> renders \<^verbatim>\<open>(0 == 1) || (0 == 2)\<close> with \<open>x = 0\<close>,
  \<open>y = 0\<close>; with \<open>x = 1\<close> the generated code leaves the state as the test of the OR left
  it, and the check of the rewritten assertion prints nothing and calls nothing.
\<close>

lemma or_code_examples:
  "eval plus_7 (BINARY TRUTH_ORIF_EXPR x_eq_1 y_eq_2) (start [(''x'', 0), (''y'', 0)])
     = Some (0, start [(''x'', 0), (''y'', 0)]) \<and>
   map_option out
     (render plus_7 (BINARY TRUTH_ORIF_EXPR x_eq_1 y_eq_2) (start [(''x'', 0), (''y'', 0)]))
     = Some ''(0 == 1) || (0 == 2)'' \<and>
   eval plus_7 (BINARY TRUTH_ORIF_EXPR x_eq_1 y_eq_2) (start [(''x'', 1)])
     = Some (1, start [(''x'', 1)]) \<and>
   render plus_7 (BINARY TRUTH_ORIF_EXPR x_eq_1 y_eq_2) (start [(''x'', 1)])
     = Some (start [(''x'', 1)]) \<and>
   map_option (\<lambda>s. (out s, calls s))
     (check patch_assert plus_7 (BINARY TRUTH_ORIF_EXPR x_eq_1 y_eq_2) (start [(''x'', 1)]))
     = Some ([], [])"
proof -
  have c: "TRUTH_ORIF_EXPR = TRUTH_ORIF_EXPR \<or> TRUTH_ORIF_EXPR = TRUTH_OR_EXPR"
    by simp
  have e0: "eval plus_7 (BINARY TRUTH_ORIF_EXPR x_eq_1 y_eq_2) (start [(''x'', 0), (''y'', 0)])
      = Some (0, start [(''x'', 0), (''y'', 0)])"
    by (simp add: x_eq_1_def y_eq_2_def start_def truth_def)
  have e1: "eval plus_7 (BINARY TRUTH_ORIF_EXPR x_eq_1 y_eq_2) (start [(''x'', 1)])
      = Some (1, start [(''x'', 1)])"
    by (simp add: x_eq_1_def y_eq_2_def start_def truth_def)
  have r0: "map_option out
      (then_opt (render plus_7 x_eq_1 (printf_text ''('' (start [(''x'', 0), (''y'', 0)])))
         (\<lambda>s2. then_opt (render plus_7 y_eq_2 (printf_text '') || ('' s2))
            (\<lambda>s3. Some (printf_text '')'' s3))))
      = Some ''(0 == 1) || (0 == 2)''"
    by code_simp
  have w: "map_option (\<lambda>s. (out s, calls s))
      (check patch_assert plus_7 (BINARY TRUTH_ORIF_EXPR x_eq_1 y_eq_2) (start [(''x'', 1)]))
      = Some ([], [])"
    by code_simp
  show ?thesis
    using or_code_branches_on_whole[OF c e0] or_code_branches_on_whole[OF c e1] e0 e1 r0 w
    by (simp del: eval.simps(5))
qed

section \<open>The static rewrite: arguments and template\<close>

text \<open>
  C5, as the spec states it, fails where the template does not fit the buffer of 1024
  bytes: for the sum of 512 operands \<^verbatim>\<open>a + a + .. + a\<close> the call gets 512 arguments,
  and the template, cut to 1023 characters, has no conversion for each of them.
\<close>

theorem static_template_cut_counterexample:
  "length (snd (create_expression_repr (sum_chain 511) [])) = 512 \<and>
   map_option snd
     (printf_format (fst (create_expression_repr (sum_chain 511) [])) (replicate 512 0))
     \<noteq> Some []"
proof
  show "length (snd (create_expression_repr (sum_chain 511) [])) = 512"
    by (simp add: create_expression_repr_eq length_leaves_sum_chain)
  show "map_option snd
      (printf_format (fst (create_expression_repr (sum_chain 511) [])) (replicate 512 0))
      \<noteq> Some []"
  proof
    assume "map_option snd
      (printf_format (fst (create_expression_repr (sum_chain 511) [])) (replicate 512 0))
      = Some []"
    then obtain t where
      "printf_format (take 1023 (template (sum_chain 511))) (replicate 512 0) = Some (t, [])"
      by (auto simp: create_expression_repr_eq)
    from printf_format_consumes[OF this] show False
      by simp
  qed
qed

text \<open>
  C5, amended. For every condition, the arguments of the \<^verbatim>\<open>printf\<close> call built by the
  static rewrite are the format followed by exactly the leaves of the condition in
  left-to-right order, and the format is the whole template cut to its first 1023
  characters. When the whole template has at most 1023 characters, the format is the
  whole template, and printing it uses up exactly one argument per leaf, in order. For a
  longer template nothing is said about the match.
\<close>

theorem static_arguments_in_source_order:
  "snd (create_expression_repr c []) = leaves c \<and>
   fst (create_expression_repr c []) = take 1023 (template c) \<and>
   patch_assert_static (COND_EXPR c t e) =
     Inr (COND_EXPR c t
       (CALL_EXPR (UNARY ADDR_EXPR (DECL FUNCTION_DECL ''printf''))
          (UNARY ADDR_EXPR (STRING_CST (fst (create_expression_repr c []))) # leaves c))) \<and>
   (length (template c) \<le> 1023 \<longrightarrow>
      fst (create_expression_repr c []) = template c \<and>
      (\<forall>vs rest. length vs = length (leaves c) \<longrightarrow>
         map_option snd (printf_format (fst (create_expression_repr c [])) (vs @ rest))
           = Some rest))"
proof (intro conjI impI allI)
  show "snd (create_expression_repr c []) = leaves c"
    by (simp add: create_expression_repr_eq)
  show "fst (create_expression_repr c []) = take 1023 (template c)"
    by (simp add: create_expression_repr_eq)
  show "patch_assert_static (COND_EXPR c t e) =
     Inr (COND_EXPR c t
       (CALL_EXPR (UNARY ADDR_EXPR (DECL FUNCTION_DECL ''printf''))
          (UNARY ADDR_EXPR (STRING_CST (fst (create_expression_repr c []))) # leaves c)))"
    by (simp add: create_expression_repr_eq build_string_literal_def
        build_call_expr_loc_vec_def lookup_name_def)
next
  assume fits: "length (template c) \<le> 1023"
  then show whole: "fst (create_expression_repr c []) = template c"
    by (simp add: create_expression_repr_eq)
  fix vs rest :: "int list"
  assume "length vs = length (leaves c)"
  from template_consumes_leaves[OF this, of rest] whole
  show "map_option snd (printf_format (fst (create_expression_repr c [])) (vs @ rest))
      = Some rest"
    by auto
qed

text \<open>
  For \<^verbatim>\<open>call(n) % 2 == 0 && n - 100 == 150\<close> the leaves are \<^verbatim>\<open>call(n) % 2\<close>,
  \<^verbatim>\<open>0\<close>, \<^verbatim>\<open>n\<close>, \<^verbatim>\<open>100\<close>, \<^verbatim>\<open>150\<close>, and the template has five conversions.
\<close>

theorem static_arguments_in_source_order_witness:
  "length (template cond_call) \<le> 1023 \<and>
   length [0, 0, 5, 100, 150 :: int] = length (leaves cond_call) \<and>
   leaves cond_call =
     [BINARY TRUNC_MOD_EXPR
        (CALL_EXPR (UNARY ADDR_EXPR (DECL FUNCTION_DECL ''call'')) [DECL PARM_DECL ''n''])
        (INTEGER_CST 2),
      INTEGER_CST 0, DECL PARM_DECL ''n'', INTEGER_CST 100, INTEGER_CST 150] \<and>
   snd (create_expression_repr cond_call []) = leaves cond_call \<and>
   fst (create_expression_repr cond_call []) = ''((%d) == (%d)) && (((%d) - (%d)) == (%d))'' \<and>
   map_option snd
     (printf_format (fst (create_expression_repr cond_call [])) ([0, 0, 5, 100, 150] @ []))
     = Some []"
proof -
  have fits: "length (template cond_call) \<le> 1023"
    by (simp add: cond_call_def)
  have len: "length [0, 0, 5, 100, 150 :: int] = length (leaves cond_call)"
    by (simp add: cond_call_def)
  have lv: "leaves cond_call =
     [BINARY TRUNC_MOD_EXPR
        (CALL_EXPR (UNARY ADDR_EXPR (DECL FUNCTION_DECL ''call'')) [DECL PARM_DECL ''n''])
        (INTEGER_CST 2),
      INTEGER_CST 0, DECL PARM_DECL ''n'', INTEGER_CST 100, INTEGER_CST 150]"
    by (simp add: cond_call_def)
  have tm: "template cond_call = ''((%d) == (%d)) && (((%d) - (%d)) == (%d))''"
    by (simp add: cond_call_def)
  note t = static_arguments_in_source_order[of cond_call "UNARY NOP_EXPR (INTEGER_CST 0)"
      assert_fail_call]
  from t have 1: "snd (create_expression_repr cond_call []) = leaves cond_call"
    by blast
  from t fits have 2: "fst (create_expression_repr cond_call []) = template cond_call"
    by blast
  from t fits len have 3: "map_option snd
      (printf_format (fst (create_expression_repr cond_call [])) ([0, 0, 5, 100, 150] @ []))
      = Some []"
    by blast
  show ?thesis
    by (intro conjI fits len lv 1 2[unfolded tm] 3)
qed

section \<open>Parentheses\<close>




section \<open>Leaves and operator glyphs\<close>

text \<open>
  C8. A node whose kind is not in the operator table has no glyph
  (\<^verbatim>\<open>get_expr_op_repr\<close> gives \<^verbatim>\<open>NULL\<close>); both renderers emit the single placeholder
  \<^verbatim>\<open>%d\<close> for it, with the whole node as its argument, and do not look at its
  operands. The kinds in the table are equality, inequality, logical and/or, add, subtract,
  multiply and divide, and each is rendered with its glyph: between the parenthesized
  operands in the static format, between two spaces in the run-time code of the
  non-logical operators, and in the texts \<^verbatim>\<open>(...) && (\<close> and \<^verbatim>\<open>) || (\<close> of the
  logical ones.
\<close>

theorem leaves_and_glyphs:
  "(get_expr_op_repr e = None \<longrightarrow>
      create_expression_repr e args = (''%d'', args @ [e]) \<and>
      make_conditional_expr_repr P e =
        STATEMENT_LIST [CALL_EXPR (UNARY ADDR_EXPR P) [UNARY ADDR_EXPR (STRING_CST ''%d''), e]]) \<and>
   (get_expr_op_repr e = None \<longleftrightarrow>
      (\<forall>code l r. e = BINARY code l r \<longrightarrow> code = LT_EXPR \<or> code = TRUNC_MOD_EXPR)) \<and>
   get_expr_op_repr (BINARY EQ_EXPR l r) = Some ''=='' \<and>
   get_expr_op_repr (BINARY NE_EXPR l r) = Some ''!='' \<and>
   get_expr_op_repr (BINARY TRUTH_AND_EXPR l r) = Some ''&&'' \<and>
   get_expr_op_repr (BINARY TRUTH_ANDIF_EXPR l r) = Some ''&&'' \<and>
   get_expr_op_repr (BINARY TRUTH_OR_EXPR l r) = Some ''||'' \<and>
   get_expr_op_repr (BINARY TRUTH_ORIF_EXPR l r) = Some ''||'' \<and>
   get_expr_op_repr (BINARY PLUS_EXPR l r) = Some ''+'' \<and>
   get_expr_op_repr (BINARY MINUS_EXPR l r) = Some ''-'' \<and>
   get_expr_op_repr (BINARY MULT_EXPR l r) = Some ''*'' \<and>
   get_expr_op_repr (BINARY TRUNC_DIV_EXPR l r) = Some ''/'' \<and>
   (get_expr_op_repr (BINARY code l r) = Some op \<longrightarrow>
      fst (create_expression_repr (BINARY code l r) args) =
        snprintf 1024 (''('' @ fst (create_expression_repr l args1) @ '') '' @ op @ '' ('' @
          fst (create_expression_repr r args2) @ '')'')) \<and>
   (code \<noteq> TRUTH_ANDIF_EXPR \<and> code \<noteq> TRUTH_AND_EXPR \<and> code \<noteq> TRUTH_ORIF_EXPR \<and>
      code \<noteq> TRUTH_OR_EXPR \<and> get_expr_op_repr (BINARY code l r) = Some op \<longrightarrow>
      make_conditional_expr_repr P (BINARY code l r) =
        STATEMENT_LIST (stmts_of (make_conditional_expr_repr P l) @
          CALL_EXPR (UNARY ADDR_EXPR P) [UNARY ADDR_EXPR (STRING_CST ('' '' @ op @ '' ''))] #
          stmts_of (make_conditional_expr_repr P r))) \<and>
   (code = TRUTH_ANDIF_EXPR \<or> code = TRUTH_AND_EXPR \<longrightarrow>
      make_conditional_expr_repr P (BINARY code l r) =
        COND_EXPR l
          (STATEMENT_LIST
             (CALL_EXPR (UNARY ADDR_EXPR P) [UNARY ADDR_EXPR (STRING_CST ''(...) && ('')] #
              stmts_of (make_conditional_expr_repr P r) @
              [CALL_EXPR (UNARY ADDR_EXPR P) [UNARY ADDR_EXPR (STRING_CST '')'')]]))
          (STATEMENT_LIST (stmts_of (make_conditional_expr_repr P l)))) \<and>
   (code = TRUTH_ORIF_EXPR \<or> code = TRUTH_OR_EXPR \<longrightarrow>
      make_conditional_expr_repr P (BINARY code l r) =
        COND_EXPR (BINARY code l r) (UNARY NOP_EXPR (INTEGER_CST 0))
          (STATEMENT_LIST
             (CALL_EXPR (UNARY ADDR_EXPR P) [UNARY ADDR_EXPR (STRING_CST ''('')] #
              stmts_of (make_conditional_expr_repr P l) @
              CALL_EXPR (UNARY ADDR_EXPR P) [UNARY ADDR_EXPR (STRING_CST '') || ('')] #
              stmts_of (make_conditional_expr_repr P r) @
              [CALL_EXPR (UNARY ADDR_EXPR P) [UNARY ADDR_EXPR (STRING_CST '')'')]])))"
proof (intro conjI impI)
  show "create_expression_repr e args = (''%d'', args @ [e])" if "get_expr_op_repr e = None"
    using that by (cases e) (simp_all del: get_expr_op_repr.simps)
  show "make_conditional_expr_repr P e =
      STATEMENT_LIST [CALL_EXPR (UNARY ADDR_EXPR P) [UNARY ADDR_EXPR (STRING_CST ''%d''), e]]"
    if "get_expr_op_repr e = None"
    using make_conditional_expr_repr_leaf[OF that] by (simp add: make_printf_Some)
  show "get_expr_op_repr e = None \<longleftrightarrow>
      (\<forall>code l r. e = BINARY code l r \<longrightarrow> code = LT_EXPR \<or> code = TRUNC_MOD_EXPR)"
    by (cases e) (auto split: binary_code.splits)
  show "fst (create_expression_repr (BINARY code l r) args) =
        snprintf 1024 (''('' @ fst (create_expression_repr l args1) @ '') '' @ op @ '' ('' @
          fst (create_expression_repr r args2) @ '')'')"
    if "get_expr_op_repr (BINARY code l r) = Some op"
    using that
    by (simp add: create_expression_repr_eq[of l] create_expression_repr_eq[of r]
        split: prod.splits del: get_expr_op_repr.simps)
  show "make_conditional_expr_repr P (BINARY code l r) =
        STATEMENT_LIST (stmts_of (make_conditional_expr_repr P l) @
          CALL_EXPR (UNARY ADDR_EXPR P) [UNARY ADDR_EXPR (STRING_CST ('' '' @ op @ '' ''))] #
          stmts_of (make_conditional_expr_repr P r))"
    if h: "code \<noteq> TRUTH_ANDIF_EXPR \<and> code \<noteq> TRUTH_AND_EXPR \<and> code \<noteq> TRUTH_ORIF_EXPR \<and>
      code \<noteq> TRUTH_OR_EXPR \<and> get_expr_op_repr (BINARY code l r) = Some op"
  proof -
    from h have g: "get_expr_op_repr (BINARY code l r) = Some op" by blast
    from op_repr_plain[OF g] have "snprintf 64 ('' '' @ op @ '' '') = '' '' @ op @ '' ''"
      by (auto simp: snprintf_def)
    with h make_conditional_expr_repr_binary[of code l r op P] show ?thesis
      by (simp add: make_printf_None del: get_expr_op_repr.simps)
  qed
  show "make_conditional_expr_repr P (BINARY code l r) =
        COND_EXPR l
          (STATEMENT_LIST
             (CALL_EXPR (UNARY ADDR_EXPR P) [UNARY ADDR_EXPR (STRING_CST ''(...) && ('')] #
              stmts_of (make_conditional_expr_repr P r) @
              [CALL_EXPR (UNARY ADDR_EXPR P) [UNARY ADDR_EXPR (STRING_CST '')'')]]))
          (STATEMENT_LIST (stmts_of (make_conditional_expr_repr P l)))"
    if "code = TRUTH_ANDIF_EXPR \<or> code = TRUTH_AND_EXPR"
    using make_conditional_expr_repr_and[OF that] by (simp add: make_printf_None)
  show "make_conditional_expr_repr P (BINARY code l r) =
        COND_EXPR (BINARY code l r) (UNARY NOP_EXPR (INTEGER_CST 0))
          (STATEMENT_LIST
             (CALL_EXPR (UNARY ADDR_EXPR P) [UNARY ADDR_EXPR (STRING_CST ''('')] #
              stmts_of (make_conditional_expr_repr P l) @
              CALL_EXPR (UNARY ADDR_EXPR P) [UNARY ADDR_EXPR (STRING_CST '') || ('')] #
              stmts_of (make_conditional_expr_repr P r) @
              [CALL_EXPR (UNARY ADDR_EXPR P) [UNARY ADDR_EXPR (STRING_CST '')'')]]))"
    if "code = TRUTH_ORIF_EXPR \<or> code = TRUTH_OR_EXPR"
    using make_conditional_expr_repr_or[OF that] by (simp add: make_printf_None)
qed simp_all

text \<open>
  \<^verbatim>\<open>call(n) % 2\<close> is a leaf although it contains a call; \<^verbatim>\<open>n - 100\<close> is rendered
  with \<^verbatim>\<open>-\<close>.
\<close>

theorem leaves_and_glyphs_witness:
  "get_expr_op_repr call_n_mod_2 = None \<and>
   create_expression_repr call_n_mod_2 [] = (''%d'', [call_n_mod_2]) \<and>
   make_conditional_expr_repr (lookup_name ''printf'') call_n_mod_2 =
     STATEMENT_LIST
       [CALL_EXPR (UNARY ADDR_EXPR (DECL FUNCTION_DECL ''printf''))
          [UNARY ADDR_EXPR (STRING_CST ''%d''), call_n_mod_2]] \<and>
   get_expr_op_repr (BINARY MINUS_EXPR (DECL PARM_DECL ''n'') (INTEGER_CST 100)) = Some ''-'' \<and>
   fst (create_expression_repr (BINARY MINUS_EXPR (DECL PARM_DECL ''n'') (INTEGER_CST 100)) [])
     = ''(%d) - (%d)'' \<and>
   make_conditional_expr_repr (lookup_name ''printf'')
       (BINARY MINUS_EXPR (DECL PARM_DECL ''n'') (INTEGER_CST 100)) =
     STATEMENT_LIST
       [CALL_EXPR (UNARY ADDR_EXPR (DECL FUNCTION_DECL ''printf''))
          [UNARY ADDR_EXPR (STRING_CST ''%d''), DECL PARM_DECL ''n''],
        CALL_EXPR (UNARY ADDR_EXPR (DECL FUNCTION_DECL ''printf''))
          [UNARY ADDR_EXPR (STRING_CST '' - '')],
        CALL_EXPR (UNARY ADDR_EXPR (DECL FUNCTION_DECL ''printf''))
          [UNARY ADDR_EXPR (STRING_CST ''%d''), INTEGER_CST 100]] \<and>
   make_conditional_expr_repr (lookup_name ''printf'')
       (BINARY TRUTH_ANDIF_EXPR (DECL VAR_DECL ''x'') (DECL VAR_DECL ''y'')) =
     COND_EXPR (DECL VAR_DECL ''x'')
       (STATEMENT_LIST
          [CALL_EXPR (UNARY ADDR_EXPR (DECL FUNCTION_DECL ''printf''))
             [UNARY ADDR_EXPR (STRING_CST ''(...) && ('')],
           CALL_EXPR (UNARY ADDR_EXPR (DECL FUNCTION_DECL ''printf''))
             [UNARY ADDR_EXPR (STRING_CST ''%d''), DECL VAR_DECL ''y''],
           CALL_EXPR (UNARY ADDR_EXPR (DECL FUNCTION_DECL ''printf''))
             [UNARY ADDR_EXPR (STRING_CST '')'')]])
       (STATEMENT_LIST
          [CALL_EXPR (UNARY ADDR_EXPR (DECL FUNCTION_DECL ''printf''))
             [UNARY ADDR_EXPR (STRING_CST ''%d''), DECL VAR_DECL ''x'']]) \<and>
   make_conditional_expr_repr (lookup_name ''printf'')
       (BINARY TRUTH_ORIF_EXPR (DECL VAR_DECL ''x'') (DECL VAR_DECL ''y'')) =
     COND_EXPR (BINARY TRUTH_ORIF_EXPR (DECL VAR_DECL ''x'') (DECL VAR_DECL ''y''))
       (UNARY NOP_EXPR (INTEGER_CST 0))
       (STATEMENT_LIST
          [CALL_EXPR (UNARY ADDR_EXPR (DECL FUNCTION_DECL ''printf''))
             [UNARY ADDR_EXPR (STRING_CST ''('')],
           CALL_EXPR (UNARY ADDR_EXPR (DECL FUNCTION_DECL ''printf''))
             [UNARY ADDR_EXPR (STRING_CST ''%d''), DECL VAR_DECL ''x''],
           CALL_EXPR (UNARY ADDR_EXPR (DECL FUNCTION_DECL ''printf''))
             [UNARY ADDR_EXPR (STRING_CST '') || ('')],
           CALL_EXPR (UNARY ADDR_EXPR (DECL FUNCTION_DECL ''printf''))
             [UNARY ADDR_EXPR (STRING_CST ''%d''), DECL VAR_DECL ''y''],
           CALL_EXPR (UNARY ADDR_EXPR (DECL FUNCTION_DECL ''printf''))
             [UNARY ADDR_EXPR (STRING_CST '')'')]])"
proof -
  let ?P = "lookup_name ''printf''"
  let ?n = "DECL PARM_DECL ''n''"
  let ?x = "DECL VAR_DECL ''x''"
  let ?y = "DECL VAR_DECL ''y''"
  have leaf: "get_expr_op_repr call_n_mod_2 = None"
    by (simp add: call_n_mod_2_def)
  have minus: "get_expr_op_repr (BINARY MINUS_EXPR ?n (INTEGER_CST 100)) = Some ''-''"
    by simp
  have other: "MINUS_EXPR \<noteq> TRUTH_ANDIF_EXPR \<and> MINUS_EXPR \<noteq> TRUTH_AND_EXPR \<and>
      MINUS_EXPR \<noteq> TRUTH_ORIF_EXPR \<and> MINUS_EXPR \<noteq> TRUTH_OR_EXPR"
    by simp
  have subs: "fst (create_expression_repr ?n []) = ''%d''"
    "fst (create_expression_repr (INTEGER_CST 100) []) = ''%d''"
    "stmts_of (make_conditional_expr_repr ?P ?n) =
       [CALL_EXPR (UNARY ADDR_EXPR ?P) [UNARY ADDR_EXPR (STRING_CST ''%d''), ?n]]"
    "stmts_of (make_conditional_expr_repr ?P (INTEGER_CST 100)) =
       [CALL_EXPR (UNARY ADDR_EXPR ?P) [UNARY ADDR_EXPR (STRING_CST ''%d''), INTEGER_CST 100]]"
    "stmts_of (make_conditional_expr_repr ?P ?x) =
       [CALL_EXPR (UNARY ADDR_EXPR ?P) [UNARY ADDR_EXPR (STRING_CST ''%d''), ?x]]"
    "stmts_of (make_conditional_expr_repr ?P ?y) =
       [CALL_EXPR (UNARY ADDR_EXPR ?P) [UNARY ADDR_EXPR (STRING_CST ''%d''), ?y]]"
    by (simp_all add: stmts_of_def alloc_stmt_list_def make_printf_Some)
  note a = leaves_and_glyphs[of call_n_mod_2 "[]" ?P ?n "INTEGER_CST 100" MINUS_EXPR "''-''"
      "[]" "[]"]
  note b = leaves_and_glyphs[of call_n_mod_2 "[]" ?P ?x ?y TRUTH_ANDIF_EXPR "''&&''" "[]" "[]"]
  note c = leaves_and_glyphs[of call_n_mod_2 "[]" ?P ?x ?y TRUTH_ORIF_EXPR "''||''" "[]" "[]"]
  have 1: "create_expression_repr call_n_mod_2 [] = (''%d'', [call_n_mod_2])"
    and 2: "make_conditional_expr_repr ?P call_n_mod_2 =
      STATEMENT_LIST [CALL_EXPR (UNARY ADDR_EXPR ?P) [UNARY ADDR_EXPR (STRING_CST ''%d''),
        call_n_mod_2]]"
    using a leaf by simp_all
  have 3: "fst (create_expression_repr (BINARY MINUS_EXPR ?n (INTEGER_CST 100)) [])
      = ''(%d) - (%d)''"
    using a minus subs by (simp add: snprintf_def)
  have 4: "make_conditional_expr_repr ?P (BINARY MINUS_EXPR ?n (INTEGER_CST 100)) =
      STATEMENT_LIST (stmts_of (make_conditional_expr_repr ?P ?n) @
        CALL_EXPR (UNARY ADDR_EXPR ?P) [UNARY ADDR_EXPR (STRING_CST ('' '' @ ''-'' @ '' ''))] #
        stmts_of (make_conditional_expr_repr ?P (INTEGER_CST 100)))"
    using a minus other by blast
  have 5: "make_conditional_expr_repr ?P (BINARY TRUTH_ANDIF_EXPR ?x ?y) =
      COND_EXPR ?x
        (STATEMENT_LIST
           (CALL_EXPR (UNARY ADDR_EXPR ?P) [UNARY ADDR_EXPR (STRING_CST ''(...) && ('')] #
            stmts_of (make_conditional_expr_repr ?P ?y) @
            [CALL_EXPR (UNARY ADDR_EXPR ?P) [UNARY ADDR_EXPR (STRING_CST '')'')]]))
        (STATEMENT_LIST (stmts_of (make_conditional_expr_repr ?P ?x)))"
    using b by blast
  have 6: "make_conditional_expr_repr ?P (BINARY TRUTH_ORIF_EXPR ?x ?y) =
      COND_EXPR (BINARY TRUTH_ORIF_EXPR ?x ?y) (UNARY NOP_EXPR (INTEGER_CST 0))
        (STATEMENT_LIST
           (CALL_EXPR (UNARY ADDR_EXPR ?P) [UNARY ADDR_EXPR (STRING_CST ''('')] #
            stmts_of (make_conditional_expr_repr ?P ?x) @
            CALL_EXPR (UNARY ADDR_EXPR ?P) [UNARY ADDR_EXPR (STRING_CST '') || ('')] #
            stmts_of (make_conditional_expr_repr ?P ?y) @
            [CALL_EXPR (UNARY ADDR_EXPR ?P) [UNARY ADDR_EXPR (STRING_CST '')'')]]))"
    using c by blast
  show ?thesis
    unfolding 4 5 6 subs using leaf 1 2 minus 3 by (simp add: lookup_name_def)
qed

section \<open>Occurrences that do not match\<close>

text \<open>
  C7. An occurrence examined by the walk (the body of a \<^verbatim>\<open>BIND_EXPR\<close> that is not a
  statement list) whose layout is not that of an assertion is not transformed: its block
  comes back as it was, whatever the rewrite is. This holds for that occurrence only: in a
  list of statements the statements before and after it are treated as they would be
  without it. The walk of the run-time plug-in over a function body that is a
  \<^verbatim>\<open>BIND_EXPR\<close> or a \<^verbatim>\<open>STATEMENT_LIST\<close> always ends with a tree, never with an
  internal compiler error.
\<close>

theorem mismatched_occurrence_left_alone:
  assumes "\<not> is_assert_fail_cond_expr body" and "\<forall>ss. body \<noteq> STATEMENT_LIST ss"
  shows "iterate_function_body patch (BIND_EXPR body) = Inr (BIND_EXPR body) \<and>
     iterate_stmts patch (xs @ BIND_EXPR body # ys) =
       (case iterate_stmts patch xs of
          Inl err \<Rightarrow> Inl err
        | Inr xs' \<Rightarrow>
            (case iterate_stmts patch ys of
               Inl err \<Rightarrow> Inl err
             | Inr ys' \<Rightarrow> Inr (xs' @ BIND_EXPR body # ys'))) \<and>
     (\<exists>t'. iterate_function_body patch_assert (BIND_EXPR (STATEMENT_LIST (xs @ BIND_EXPR body # ys)))
        = Inr t') \<and>
     (\<exists>t'. iterate_function_body patch_assert (STATEMENT_LIST (xs @ BIND_EXPR body # ys)) = Inr t')"
proof (intro conjI)
  show one: "iterate_function_body patch (BIND_EXPR body) = Inr (BIND_EXPR body)"
    by (rule iterate_mismatch[OF assms])
  have "iterate_stmts patch (BIND_EXPR body # ys) =
      (case iterate_stmts patch ys of Inl err \<Rightarrow> Inl err | Inr ys' \<Rightarrow> Inr (BIND_EXPR body # ys'))"
    using one by (simp del: iterate_function_body.simps)
  then show "iterate_stmts patch (xs @ BIND_EXPR body # ys) =
       (case iterate_stmts patch xs of
          Inl err \<Rightarrow> Inl err
        | Inr xs' \<Rightarrow>
            (case iterate_stmts patch ys of
               Inl err \<Rightarrow> Inl err
             | Inr ys' \<Rightarrow> Inr (xs' @ BIND_EXPR body # ys')))"
    by (simp add: iterate_stmts_append split: sum.splits del: iterate_stmts.simps)
  show "\<exists>t'. iterate_function_body patch_assert
      (BIND_EXPR (STATEMENT_LIST (xs @ BIND_EXPR body # ys))) = Inr t'"
    using iterate_total(1)[OF patch_assert_total] by blast
  show "\<exists>t'. iterate_function_body patch_assert (STATEMENT_LIST (xs @ BIND_EXPR body # ys))
      = Inr t'"
    using iterate_total(1)[OF patch_assert_total] by blast
qed

text \<open>
  A conditional that calls \<^verbatim>\<open>abort\<close> instead of \<^verbatim>\<open>__assert_fail\<close> stays as it
  is, and the assertion before it is rewritten.
\<close>

theorem mismatched_occurrence_left_alone_witness:
  "\<not> is_assert_fail_cond_expr
       (COND_EXPR x_eq_1 (UNARY NOP_EXPR (INTEGER_CST 0)) abort_call) \<and>
   (\<forall>ss. COND_EXPR x_eq_1 (UNARY NOP_EXPR (INTEGER_CST 0)) abort_call \<noteq> STATEMENT_LIST ss) \<and>
   iterate_function_body patch_assert
     (BIND_EXPR
        (STATEMENT_LIST
           [BIND_EXPR (assert_of y_eq_2),
            BIND_EXPR (COND_EXPR x_eq_1 (UNARY NOP_EXPR (INTEGER_CST 0)) abort_call)])) =
     Inr (BIND_EXPR
        (STATEMENT_LIST
           [BIND_EXPR
              (COND_EXPR y_eq_2 (UNARY NOP_EXPR (INTEGER_CST 0))
                 (make_conditional_expr_repr (lookup_name ''printf'') y_eq_2)),
            BIND_EXPR (COND_EXPR x_eq_1 (UNARY NOP_EXPR (INTEGER_CST 0)) abort_call)]))"
proof -
  let ?other = "COND_EXPR x_eq_1 (UNARY NOP_EXPR (INTEGER_CST 0)) abort_call"
  have m: "\<not> is_assert_fail_cond_expr ?other"
    by (simp add: is_assert_fail_cond_expr_def abort_call_def)
  have n: "\<forall>ss. ?other \<noteq> STATEMENT_LIST ss"
    by simp
  have xs: "iterate_stmts patch_assert [BIND_EXPR (assert_of y_eq_2)] =
      Inr [BIND_EXPR (COND_EXPR y_eq_2 (UNARY NOP_EXPR (INTEGER_CST 0))
             (make_conditional_expr_repr (lookup_name ''printf'') y_eq_2))]"
    by (simp add: assert_of_def assert_fail_call_def is_assert_fail_cond_expr_def Let_def
        del: make_conditional_expr_repr.simps)
  have "iterate_stmts patch_assert ([BIND_EXPR (assert_of y_eq_2)] @ BIND_EXPR ?other # []) =
      (case iterate_stmts patch_assert [BIND_EXPR (assert_of y_eq_2)] of
         Inl err \<Rightarrow> Inl err
       | Inr xs' \<Rightarrow>
           (case iterate_stmts patch_assert [] of
              Inl err \<Rightarrow> Inl err
            | Inr ys' \<Rightarrow> Inr (xs' @ BIND_EXPR ?other # ys')))"
    using mismatched_occurrence_left_alone[OF m n, of patch_assert
        "[BIND_EXPR (assert_of y_eq_2)]" "[]"]
    by blast
  then have both: "iterate_stmts patch_assert [BIND_EXPR (assert_of y_eq_2), BIND_EXPR ?other] =
      Inr [BIND_EXPR (COND_EXPR y_eq_2 (UNARY NOP_EXPR (INTEGER_CST 0))
             (make_conditional_expr_repr (lookup_name ''printf'') y_eq_2)), BIND_EXPR ?other]"
    unfolding xs by (simp only: iterate_stmts.simps(1) sum.case append_Cons append_Nil)
  show ?thesis
  proof (intro conjI)
    show "\<not> is_assert_fail_cond_expr ?other" by (rule m)
    show "\<forall>ss. ?other \<noteq> STATEMENT_LIST ss" by (rule n)
    show "iterate_function_body patch_assert
       (BIND_EXPR (STATEMENT_LIST [BIND_EXPR (assert_of y_eq_2), BIND_EXPR ?other])) =
       Inr (BIND_EXPR
          (STATEMENT_LIST
             [BIND_EXPR
                (COND_EXPR y_eq_2 (UNARY NOP_EXPR (INTEGER_CST 0))
                   (make_conditional_expr_repr (lookup_name ''printf'') y_eq_2)),
              BIND_EXPR ?other]))"
      by (simp only: iterate_function_body.simps tree.case both sum.case)
  qed
qed

section \<open>What a rewrite replaces\<close>

text \<open>
  C9. Each of the three \<^verbatim>\<open>patch_assert\<close> functions returns the conditional it was
  given with the same condition and the same success branch; only the failure branch is
  new. A walk over a function body changes nothing but the failure branches of the
  assertions it rewrites. For the run-time plug-in the new failure branch of an assertion
  is the code generated from its condition.
\<close>

theorem only_failure_branch_replaced:
  "(patch = patch_assert \<or> patch = patch_assert_static \<or> patch = patch_assert_basic \<longrightarrow>
      (patch (COND_EXPR c t e) = Inr b \<longrightarrow> (\<exists>e'. b = COND_EXPR c t e')) \<and>
      (iterate_function_body patch expr = Inr expr' \<longrightarrow> only_else_replaced expr expr')) \<and>
   (is_assert_fail_cond_expr (COND_EXPR c t e) \<longrightarrow>
      iterate_function_body patch_assert (BIND_EXPR (COND_EXPR c t e)) =
        Inr (BIND_EXPR
          (COND_EXPR c t (make_conditional_expr_repr (lookup_name ''printf'') c))))"
proof (intro conjI impI)
  assume p: "patch = patch_assert \<or> patch = patch_assert_static \<or> patch = patch_assert_basic"
  then have fr: "\<forall>c t e b. patch (COND_EXPR c t e) = Inr b \<longrightarrow> (\<exists>e'. b = COND_EXPR c t e')"
    using patch_assert_frame patch_assert_static_frame patch_assert_basic_frame by blast
  show "\<exists>e'. b = COND_EXPR c t e'" if "patch (COND_EXPR c t e) = Inr b"
    using fr that by blast
  show "only_else_replaced expr expr'" if "iterate_function_body patch expr = Inr expr'"
    using iterate_frame(1)[OF fr that] .
next
  assume "is_assert_fail_cond_expr (COND_EXPR c t e)"
  then show "iterate_function_body patch_assert (BIND_EXPR (COND_EXPR c t e)) =
        Inr (BIND_EXPR
          (COND_EXPR c t (make_conditional_expr_repr (lookup_name ''printf'') c)))"
    by (simp add: Let_def del: make_conditional_expr_repr.simps)
qed

text \<open>
  A block with the assertion of \<^verbatim>\<open>x == 1\<close> and a call of \<^verbatim>\<open>abort\<close>: the call and
  the condition stay, the failure branch is replaced. The first plug-in replaces it by
  \<^verbatim>\<open>printf("%d == %d\n", x, 1)\<close>.
\<close>

theorem only_failure_branch_replaced_witness:
  "is_assert_fail_cond_expr (assert_of x_eq_1) \<and>
   iterate_function_body patch_assert
     (BIND_EXPR (STATEMENT_LIST [BIND_EXPR (assert_of x_eq_1), abort_call])) =
     Inr (BIND_EXPR
        (STATEMENT_LIST
           [BIND_EXPR
              (COND_EXPR x_eq_1 (UNARY NOP_EXPR (INTEGER_CST 0))
                 (make_conditional_expr_repr (lookup_name ''printf'') x_eq_1)),
            abort_call])) \<and>
   only_else_replaced
     (BIND_EXPR (STATEMENT_LIST [BIND_EXPR (assert_of x_eq_1), abort_call]))
     (BIND_EXPR
        (STATEMENT_LIST
           [BIND_EXPR
              (COND_EXPR x_eq_1 (UNARY NOP_EXPR (INTEGER_CST 0))
                 (make_conditional_expr_repr (lookup_name ''printf'') x_eq_1)),
            abort_call])) \<and>
   patch_assert_basic (assert_of x_eq_1) =
     Inr (COND_EXPR x_eq_1 (UNARY NOP_EXPR (INTEGER_CST 0))
        (CALL_EXPR (UNARY ADDR_EXPR (DECL FUNCTION_DECL ''printf''))
           [UNARY ADDR_EXPR (STRING_CST (''%d == %d'' @ [CHR 0x0A])),
            DECL VAR_DECL ''x'', INTEGER_CST 1]))"
proof -
  let ?nop = "UNARY NOP_EXPR (INTEGER_CST 0)"
  let ?new = "make_conditional_expr_repr (lookup_name ''printf'') x_eq_1"
  have sh: "is_assert_fail_cond_expr (COND_EXPR x_eq_1 ?nop assert_fail_call)"
    by (simp add: is_assert_fail_cond_expr_def assert_fail_call_def)
  have p: "patch_assert = patch_assert \<or> patch_assert = patch_assert_static \<or>
      patch_assert = patch_assert_basic"
    by simp
  note t = only_failure_branch_replaced[of patch_assert x_eq_1 ?nop assert_fail_call
      "COND_EXPR x_eq_1 ?nop ?new"
      "BIND_EXPR (STATEMENT_LIST [BIND_EXPR (assert_of x_eq_1), abort_call])"
      "BIND_EXPR (STATEMENT_LIST [BIND_EXPR (COND_EXPR x_eq_1 ?nop ?new), abort_call])"]
  from t sh have one: "iterate_function_body patch_assert (BIND_EXPR (assert_of x_eq_1)) =
      Inr (BIND_EXPR (COND_EXPR x_eq_1 ?nop ?new))"
    unfolding assert_of_def by blast
  have run: "iterate_function_body patch_assert
      (BIND_EXPR (STATEMENT_LIST [BIND_EXPR (assert_of x_eq_1), abort_call])) =
      Inr (BIND_EXPR (STATEMENT_LIST [BIND_EXPR (COND_EXPR x_eq_1 ?nop ?new), abort_call]))"
  proof -
    have "iterate_stmts patch_assert [BIND_EXPR (assert_of x_eq_1), abort_call] =
        Inr [BIND_EXPR (COND_EXPR x_eq_1 ?nop ?new), abort_call]"
      by (simp only: iterate_stmts.simps tree.case one sum.case abort_call_def)
    then show ?thesis
      by (simp only: iterate_function_body.simps(1) tree.case sum.case)
  qed
  from t p run have fr: "only_else_replaced
      (BIND_EXPR (STATEMENT_LIST [BIND_EXPR (assert_of x_eq_1), abort_call]))
      (BIND_EXPR (STATEMENT_LIST [BIND_EXPR (COND_EXPR x_eq_1 ?nop ?new), abort_call]))"
    by blast
  have basic: "patch_assert_basic (assert_of x_eq_1) =
     Inr (COND_EXPR x_eq_1 ?nop
        (CALL_EXPR (UNARY ADDR_EXPR (DECL FUNCTION_DECL ''printf''))
           [UNARY ADDR_EXPR (STRING_CST (''%d == %d'' @ [CHR 0x0A])),
            DECL VAR_DECL ''x'', INTEGER_CST 1]))"
    by (simp add: assert_of_def x_eq_1_def build_string_literal_def build_call_expr_def
        lookup_name_def)
  show ?thesis
    using sh run fr basic unfolding assert_of_def by blast
qed

section \<open>Which statements are rewritten\<close>

text \<open>
  C10, as stated for every statement, fails: the walk enters only the statements of a
  list that are \<^verbatim>\<open>BIND_EXPR\<close>s, so two conditionals of the assertion shape that
  stand in a statement list themselves are both left as they are.
\<close>

theorem assert_in_list_not_rewritten:
  "is_assert_fail_cond_expr (assert_of x_eq_1) \<and>
   is_assert_fail_cond_expr (assert_of y_eq_2) \<and>
   iterate_function_body patch_assert
     (BIND_EXPR (STATEMENT_LIST [assert_of x_eq_1, assert_of y_eq_2])) =
     Inr (BIND_EXPR (STATEMENT_LIST [assert_of x_eq_1, assert_of y_eq_2]))"
  by (simp add: assert_of_shape) (simp add: assert_of_def)

text \<open>
  C10, amended. The shape test holds exactly for a conditional whose success branch is a
  \<^verbatim>\<open>NOP_EXPR\<close> and whose failure branch calls, through the address of a function
  declaration, the function named \<^verbatim>\<open>__assert_fail\<close>. The walk reaches the block it
  is started at and, from a block it reaches, the members of the block's statement list
  that are \<^verbatim>\<open>BIND_EXPR\<close>s; it reaches nothing else. The statement that is the body
  of a \<^verbatim>\<open>BIND_EXPR\<close> the walk reaches, and is not a statement list, is rewritten if
  and only if it passes the shape test: then its failure branch becomes the generated
  code, which differs from the call it replaces, and its condition and success branch
  stay; otherwise the whole block stays as it was, with all it contains (a block nested
  directly in it is not entered). A member of a statement list that is not a
  \<^verbatim>\<open>BIND_EXPR\<close> stays as it was, with all it contains (an assertion that stands in
  the list itself, an assertion in a branch of an \<^verbatim>\<open>if\<close>).
\<close>

theorem rewritten_iff_assert_shape:
  "(is_assert_fail_cond_expr body \<longleftrightarrow>
      (\<exists>c x args. body =
         COND_EXPR c (UNARY NOP_EXPR x)
           (CALL_EXPR (UNARY ADDR_EXPR (DECL FUNCTION_DECL ''__assert_fail'')) args))) \<and>
   ((\<forall>ss. body \<noteq> STATEMENT_LIST ss) \<longrightarrow>
      (is_assert_fail_cond_expr body \<longrightarrow>
         (\<exists>c t e. body = COND_EXPR c t e \<and>
            make_conditional_expr_repr (lookup_name ''printf'') c \<noteq> e \<and>
            iterate_function_body patch_assert (BIND_EXPR body) =
              Inr (BIND_EXPR
                (COND_EXPR c t (make_conditional_expr_repr (lookup_name ''printf'') c))))) \<and>
      (\<not> is_assert_fail_cond_expr body \<longrightarrow>
         iterate_function_body patch_assert (BIND_EXPR body) = Inr (BIND_EXPR body)) \<and>
      (iterate_function_body patch_assert (BIND_EXPR body) \<noteq> Inr (BIND_EXPR body)
         \<longleftrightarrow> is_assert_fail_cond_expr body)) \<and>
   ((\<forall>b. stmt \<noteq> BIND_EXPR b) \<longrightarrow>
      iterate_stmts patch_assert (xs @ stmt # ys) =
        (case iterate_stmts patch_assert xs of
           Inl err \<Rightarrow> Inl err
         | Inr xs' \<Rightarrow>
             (case iterate_stmts patch_assert ys of
                Inl err \<Rightarrow> Inl err
              | Inr ys' \<Rightarrow> Inr (xs' @ stmt # ys')))) \<and>
   (iterate_function_body patch_assert root = Inr root' \<and>
    block_at p root = Some (BIND_EXPR body) \<and> (\<forall>ss. body \<noteq> STATEMENT_LIST ss) \<longrightarrow>
      (is_assert_fail_cond_expr body \<longrightarrow>
         (\<exists>c t e. body = COND_EXPR c t e \<and>
            make_conditional_expr_repr (lookup_name ''printf'') c \<noteq> e \<and>
            block_at p root' =
              Some (BIND_EXPR
                (COND_EXPR c t (make_conditional_expr_repr (lookup_name ''printf'') c))))) \<and>
      (\<not> is_assert_fail_cond_expr body \<longrightarrow> block_at p root' = Some (BIND_EXPR body))) \<and>
   (iterate_function_body patch_assert root = Inr root' \<and>
    block_at p root = Some blk \<and> members blk = Some ss \<and> i < length ss \<and>
    (\<forall>b. ss ! i \<noteq> BIND_EXPR b) \<longrightarrow>
      (\<exists>blk' ss'. block_at p root' = Some blk' \<and> members blk' = Some ss' \<and>
         length ss' = length ss \<and> ss' ! i = ss ! i))"
proof -
  have shape: "is_assert_fail_cond_expr body \<longleftrightarrow>
      (\<exists>c x args. body =
         COND_EXPR c (UNARY NOP_EXPR x)
           (CALL_EXPR (UNARY ADDR_EXPR (DECL FUNCTION_DECL ''__assert_fail'')) args))"
    by (rule is_assert_fail_cond_expr_iff)
  have match: "\<exists>c t e. body = COND_EXPR c t e \<and>
            make_conditional_expr_repr (lookup_name ''printf'') c \<noteq> e \<and>
            iterate_function_body patch_assert (BIND_EXPR body) =
              Inr (BIND_EXPR
                (COND_EXPR c t (make_conditional_expr_repr (lookup_name ''printf'') c)))"
    if sh: "is_assert_fail_cond_expr body"
  proof -
    from sh obtain c x args where b: "body = COND_EXPR c (UNARY NOP_EXPR x)
        (CALL_EXPR (UNARY ADDR_EXPR (DECL FUNCTION_DECL ''__assert_fail'')) args)"
      unfolding is_assert_fail_cond_expr_iff by blast
    have "make_conditional_expr_repr (lookup_name ''printf'') c \<noteq>
        CALL_EXPR (UNARY ADDR_EXPR (DECL FUNCTION_DECL ''__assert_fail'')) args"
      by (rule make_conditional_expr_repr_not_call)
    moreover have "iterate_function_body patch_assert (BIND_EXPR body) =
        Inr (BIND_EXPR (COND_EXPR c (UNARY NOP_EXPR x)
          (make_conditional_expr_repr (lookup_name ''printf'') c)))"
      using sh unfolding b by (simp add: Let_def del: make_conditional_expr_repr.simps)
    ultimately show ?thesis using b by blast
  qed
  have mismatch: "iterate_function_body patch_assert (BIND_EXPR body) = Inr (BIND_EXPR body)"
    if "\<not> is_assert_fail_cond_expr body" "\<forall>ss. body \<noteq> STATEMENT_LIST ss"
    using iterate_mismatch[OF that] .
  have start: "(\<forall>ss. body \<noteq> STATEMENT_LIST ss) \<longrightarrow>
      (is_assert_fail_cond_expr body \<longrightarrow>
         (\<exists>c t e. body = COND_EXPR c t e \<and>
            make_conditional_expr_repr (lookup_name ''printf'') c \<noteq> e \<and>
            iterate_function_body patch_assert (BIND_EXPR body) =
              Inr (BIND_EXPR
                (COND_EXPR c t (make_conditional_expr_repr (lookup_name ''printf'') c))))) \<and>
      (\<not> is_assert_fail_cond_expr body \<longrightarrow>
         iterate_function_body patch_assert (BIND_EXPR body) = Inr (BIND_EXPR body)) \<and>
      (iterate_function_body patch_assert (BIND_EXPR body) \<noteq> Inr (BIND_EXPR body)
         \<longleftrightarrow> is_assert_fail_cond_expr body)"
  proof (intro impI conjI)
    assume nl: "\<forall>ss. body \<noteq> STATEMENT_LIST ss"
    show "\<exists>c t e. body = COND_EXPR c t e \<and>
            make_conditional_expr_repr (lookup_name ''printf'') c \<noteq> e \<and>
            iterate_function_body patch_assert (BIND_EXPR body) =
              Inr (BIND_EXPR
                (COND_EXPR c t (make_conditional_expr_repr (lookup_name ''printf'') c)))"
      if "is_assert_fail_cond_expr body"
      using match[OF that] .
    show "iterate_function_body patch_assert (BIND_EXPR body) = Inr (BIND_EXPR body)"
      if "\<not> is_assert_fail_cond_expr body"
      using mismatch[OF that nl] .
    show "iterate_function_body patch_assert (BIND_EXPR body) \<noteq> Inr (BIND_EXPR body)
         \<longleftrightarrow> is_assert_fail_cond_expr body"
      using match mismatch[OF _ nl] by (cases "is_assert_fail_cond_expr body") auto
  qed
  have member: "(\<forall>b. stmt \<noteq> BIND_EXPR b) \<longrightarrow>
      iterate_stmts patch_assert (xs @ stmt # ys) =
        (case iterate_stmts patch_assert xs of
           Inl err \<Rightarrow> Inl err
         | Inr xs' \<Rightarrow>
             (case iterate_stmts patch_assert ys of
                Inl err \<Rightarrow> Inl err
              | Inr ys' \<Rightarrow> Inr (xs' @ stmt # ys')))"
  proof
    assume "\<forall>b. stmt \<noteq> BIND_EXPR b"
    then have "iterate_stmts patch_assert (stmt # ys) =
        (case iterate_stmts patch_assert ys of Inl err \<Rightarrow> Inl err | Inr ys' \<Rightarrow> Inr (stmt # ys'))"
      by (cases stmt) (simp_all split: sum.splits)
    then show "iterate_stmts patch_assert (xs @ stmt # ys) =
        (case iterate_stmts patch_assert xs of
           Inl err \<Rightarrow> Inl err
         | Inr xs' \<Rightarrow>
             (case iterate_stmts patch_assert ys of
                Inl err \<Rightarrow> Inl err
              | Inr ys' \<Rightarrow> Inr (xs' @ stmt # ys')))"
      by (simp add: iterate_stmts_append split: sum.splits del: iterate_stmts.simps)
  qed
  have deep: "(is_assert_fail_cond_expr body \<longrightarrow>
         (\<exists>c t e. body = COND_EXPR c t e \<and>
            make_conditional_expr_repr (lookup_name ''printf'') c \<noteq> e \<and>
            block_at p root' =
              Some (BIND_EXPR
                (COND_EXPR c t (make_conditional_expr_repr (lookup_name ''printf'') c))))) \<and>
      (\<not> is_assert_fail_cond_expr body \<longrightarrow> block_at p root' = Some (BIND_EXPR body))"
    if h: "iterate_function_body patch_assert root = Inr root' \<and>
      block_at p root = Some (BIND_EXPR body) \<and> (\<forall>ss. body \<noteq> STATEMENT_LIST ss)"
  proof -
    from h block_at_iterate[of patch_assert root root' p "BIND_EXPR body"]
    obtain blk' where at: "block_at p root' = Some blk'"
      and w: "iterate_function_body patch_assert (BIND_EXPR body) = Inr blk'"
      by blast
    from h have nl: "\<forall>ss. body \<noteq> STATEMENT_LIST ss" by blast
    show ?thesis
    proof (intro conjI impI)
      assume "is_assert_fail_cond_expr body"
      from match[OF this] w at
      show "\<exists>c t e. body = COND_EXPR c t e \<and>
            make_conditional_expr_repr (lookup_name ''printf'') c \<noteq> e \<and>
            block_at p root' =
              Some (BIND_EXPR
                (COND_EXPR c t (make_conditional_expr_repr (lookup_name ''printf'') c)))"
        by auto
    next
      assume "\<not> is_assert_fail_cond_expr body"
      from mismatch[OF this nl] w at show "block_at p root' = Some (BIND_EXPR body)"
        by simp
    qed
  qed
  have skipped: "\<exists>blk' ss'. block_at p root' = Some blk' \<and> members blk' = Some ss' \<and>
         length ss' = length ss \<and> ss' ! i = ss ! i"
    if h: "iterate_function_body patch_assert root = Inr root' \<and>
      block_at p root = Some blk \<and> members blk = Some ss \<and> i < length ss \<and>
      (\<forall>b. ss ! i \<noteq> BIND_EXPR b)"
  proof -
    from h block_at_iterate[of patch_assert root root' p blk]
    obtain blk' where at: "block_at p root' = Some blk'"
      and w: "iterate_function_body patch_assert blk = Inr blk'"
      by blast
    from h have m: "members blk = Some ss" by blast
    from iterate_members[OF w m] obtain ss' where m': "members blk' = Some ss'"
      and r: "iterate_stmts patch_assert ss = Inr ss'"
      by blast
    from iterate_stmts_nth[OF r] h have "length ss' = length ss" "ss' ! i = ss ! i"
      by blast+
    with at m' show ?thesis by blast
  qed
  show ?thesis
    using shape start member deep skipped by blast
qed

text \<open>
  The block of the assertion of \<^verbatim>\<open>x == 1\<close> is changed, the block of a conditional
  that calls \<^verbatim>\<open>abort\<close> is not. In the function body of four statements the first
  block is rewritten; the block nested in a block, the assertion without a block of its
  own and the \<^verbatim>\<open>if\<close> with an assertion in its branch come back as they were.
\<close>

theorem rewritten_iff_assert_shape_witness:
  "(\<forall>ss. assert_of x_eq_1 \<noteq> STATEMENT_LIST ss) \<and>
   is_assert_fail_cond_expr (assert_of x_eq_1) \<and>
   iterate_function_body patch_assert (BIND_EXPR (assert_of x_eq_1))
     \<noteq> Inr (BIND_EXPR (assert_of x_eq_1)) \<and>
   (\<forall>ss. COND_EXPR x_eq_1 (UNARY NOP_EXPR (INTEGER_CST 0)) abort_call \<noteq> STATEMENT_LIST ss) \<and>
   \<not> is_assert_fail_cond_expr (COND_EXPR x_eq_1 (UNARY NOP_EXPR (INTEGER_CST 0)) abort_call) \<and>
   iterate_function_body patch_assert
     (BIND_EXPR (COND_EXPR x_eq_1 (UNARY NOP_EXPR (INTEGER_CST 0)) abort_call))
     = Inr (BIND_EXPR (COND_EXPR x_eq_1 (UNARY NOP_EXPR (INTEGER_CST 0)) abort_call)) \<and>
   (\<forall>b. assert_of y_eq_2 \<noteq> BIND_EXPR b) \<and>
   iterate_stmts patch_assert ([] @ assert_of y_eq_2 # []) = Inr ([] @ assert_of y_eq_2 # []) \<and>
   iterate_function_body patch_assert function_body = Inr function_body_rewritten \<and>
   block_at [0] function_body = Some (BIND_EXPR (assert_of x_eq_1)) \<and>
   block_at [0] function_body_rewritten =
     Some (BIND_EXPR
       (COND_EXPR x_eq_1 (UNARY NOP_EXPR (INTEGER_CST 0))
          (make_conditional_expr_repr (lookup_name ''printf'') x_eq_1))) \<and>
   block_at [2] function_body = Some (BIND_EXPR (BIND_EXPR (assert_of x_eq_1))) \<and>
   (\<forall>ss. BIND_EXPR (assert_of x_eq_1) \<noteq> STATEMENT_LIST ss) \<and>
   \<not> is_assert_fail_cond_expr (BIND_EXPR (assert_of x_eq_1)) \<and>
   block_at [2] function_body_rewritten = Some (BIND_EXPR (BIND_EXPR (assert_of x_eq_1))) \<and>
   block_at [] function_body = Some function_body \<and>
   members function_body =
     Some [BIND_EXPR (assert_of x_eq_1), assert_of y_eq_2,
           BIND_EXPR (BIND_EXPR (assert_of x_eq_1)), if_with_assert] \<and>
   (\<forall>b. [BIND_EXPR (assert_of x_eq_1), assert_of y_eq_2,
          BIND_EXPR (BIND_EXPR (assert_of x_eq_1)), if_with_assert] ! 3 \<noteq> BIND_EXPR b) \<and>
   (\<exists>blk' ss'. block_at [] function_body_rewritten = Some blk' \<and> members blk' = Some ss' \<and>
      length ss' = 4 \<and> ss' ! 3 = if_with_assert)"
proof -
  let ?other = "COND_EXPR x_eq_1 (UNARY NOP_EXPR (INTEGER_CST 0)) abort_call"
  let ?ss = "[BIND_EXPR (assert_of x_eq_1), assert_of y_eq_2,
           BIND_EXPR (BIND_EXPR (assert_of x_eq_1)), if_with_assert]"
  have l1: "\<forall>ss. assert_of x_eq_1 \<noteq> STATEMENT_LIST ss"
    and l2: "\<forall>ss. ?other \<noteq> STATEMENT_LIST ss"
    and l3: "\<forall>b. assert_of y_eq_2 \<noteq> BIND_EXPR b"
    and l4: "\<forall>ss. BIND_EXPR (assert_of x_eq_1) \<noteq> STATEMENT_LIST ss"
    and l5: "\<forall>b. ?ss ! 3 \<noteq> BIND_EXPR b"
    by (simp_all add: assert_of_def if_with_assert_def)
  have sh: "is_assert_fail_cond_expr (assert_of x_eq_1)"
    by (rule assert_of_shape)
  have m: "\<not> is_assert_fail_cond_expr ?other"
    by (simp add: is_assert_fail_cond_expr_def abort_call_def)
  have n: "\<not> is_assert_fail_cond_expr (BIND_EXPR (assert_of x_eq_1))"
    by (simp add: is_assert_fail_cond_expr_def)
  have run: "iterate_function_body patch_assert function_body = Inr function_body_rewritten"
    by (simp add: function_body_def function_body_rewritten_def if_with_assert_def
        assert_of_def assert_fail_call_def is_assert_fail_cond_expr_def Let_def
        del: make_conditional_expr_repr.simps)
  have at0: "block_at [0] function_body = Some (BIND_EXPR (assert_of x_eq_1))"
    and at2: "block_at [2] function_body = Some (BIND_EXPR (BIND_EXPR (assert_of x_eq_1)))"
    and at: "block_at [] function_body = Some function_body"
    and mem: "members function_body = Some ?ss"
    by (simp_all add: function_body_def)
  note a = rewritten_iff_assert_shape[where body = "assert_of x_eq_1"
      and stmt = "assert_of y_eq_2" and xs = "[]" and ys = "[]"
      and root = function_body and root' = function_body_rewritten and p = "[0]"
      and blk = function_body and ss = ?ss and i = 3]
  note b = rewritten_iff_assert_shape[where body = ?other
      and stmt = "assert_of y_eq_2" and xs = "[]" and ys = "[]"
      and root = function_body and root' = function_body_rewritten and p = "[]"
      and blk = function_body and ss = ?ss and i = 3]
  note c = rewritten_iff_assert_shape[where body = "BIND_EXPR (assert_of x_eq_1)"
      and stmt = "assert_of y_eq_2" and xs = "[]" and ys = "[]"
      and root = function_body and root' = function_body_rewritten and p = "[2]"
      and blk = function_body and ss = ?ss and i = 3]
  from a l1 sh have 1: "iterate_function_body patch_assert (BIND_EXPR (assert_of x_eq_1))
      \<noteq> Inr (BIND_EXPR (assert_of x_eq_1))"
    by blast
  from b l2 m have 2: "iterate_function_body patch_assert (BIND_EXPR ?other)
      = Inr (BIND_EXPR ?other)"
    by blast
  from a l3 have "iterate_stmts patch_assert ([] @ assert_of y_eq_2 # []) =
      (case iterate_stmts patch_assert [] of
         Inl err \<Rightarrow> Inl err
       | Inr xs' \<Rightarrow>
           (case iterate_stmts patch_assert [] of
              Inl err \<Rightarrow> Inl err
            | Inr ys' \<Rightarrow> Inr (xs' @ assert_of y_eq_2 # ys')))"
    by blast
  then have 3: "iterate_stmts patch_assert ([] @ assert_of y_eq_2 # []) =
      Inr ([] @ assert_of y_eq_2 # [])"
    by (simp only: iterate_stmts.simps(1) sum.case)
  from a run at0 l1 sh have "\<exists>c t e. assert_of x_eq_1 = COND_EXPR c t e \<and>
      make_conditional_expr_repr (lookup_name ''printf'') c \<noteq> e \<and>
      block_at [0] function_body_rewritten =
        Some (BIND_EXPR
          (COND_EXPR c t (make_conditional_expr_repr (lookup_name ''printf'') c)))"
    by blast
  then have 4: "block_at [0] function_body_rewritten =
     Some (BIND_EXPR
       (COND_EXPR x_eq_1 (UNARY NOP_EXPR (INTEGER_CST 0))
          (make_conditional_expr_repr (lookup_name ''printf'') x_eq_1)))"
    unfolding assert_of_def by blast
  from c run at2 l4 n have 5: "block_at [2] function_body_rewritten =
      Some (BIND_EXPR (BIND_EXPR (assert_of x_eq_1)))"
    by blast
  have lt: "3 < length ?ss" by simp
  from b run at mem lt l5 have "\<exists>blk' ss'. block_at [] function_body_rewritten = Some blk' \<and>
      members blk' = Some ss' \<and> length ss' = length ?ss \<and> ss' ! 3 = ?ss ! 3"
    by blast
  then have 6: "\<exists>blk' ss'. block_at [] function_body_rewritten = Some blk' \<and>
      members blk' = Some ss' \<and> length ss' = 4 \<and> ss' ! 3 = if_with_assert"
    by (simp add: eval_nat_numeral)
  show ?thesis
    by (intro conjI l1 sh 1 l2 m 2 l3 3 run at0 4 at2 l4 n 5 at mem l5 6)
qed

end
